theory Spec2Isabelle
  imports Complex_Main "HOL-Library.AList"
begin

section \<open>Copying RT-DC containers: the data model\<close>

text \<open>
  The development embeds \<^verbatim>\<open>dclab/rtdc_dataset/copier.py\<close>: the functions
  \<^verbatim>\<open>rtdc_copy\<close>, \<^verbatim>\<open>h5ds_copy\<close> and \<^verbatim>\<open>is_properly_compressed\<close>.
  The HDF5 store they drive (h5py) and the numpy reducers are outside the repository;
  they are modelled here by what the copier relies on:
  \<^item> an element of an array is a number or a text line; a number is finite, one of the
    two infinities, or NaN. Minimum and maximum only compare numbers; the sum and the
    quotient behind numpy's mean are floating-point operations and are parameters of
    the model (see \<open>library\<close>);
  \<^item> a dataset carries its shape, element type, chunk shape (\<open>None\<close>: not chunked, or
    left to the store), its filter pipeline as pairs of filter id and client data
    values, the Fletcher32 flag, its elements in row-major order and its attributes;
  \<^item> a group is a list of named members, in iteration order;
  \<^item> Python exceptions are values of the type \<open>error\<close>.
\<close>

datatype fval = Fin rat | PInf | NInf | NaN

datatype elem = Num fval | Txt string

datatype h5dtype = NumericType | StringType

datatype attr_value = AttrNum fval | AttrStr string

type_synonym h5attrs = "(string \<times> attr_value) list"

type_synonym h5filters = "(nat \<times> nat list) list"

record dataset =
  shape :: "nat list"
  dtype :: h5dtype
  chunks :: "nat list option"
  filters :: h5filters
  fletcher32 :: bool
  content :: "elem list"
  attrs :: h5attrs

datatype h5obj = Dataset dataset | Group "(string \<times> h5obj) list"

type_synonym h5group = "(string \<times> h5obj) list"

text \<open>
  The root of an RT-DC file: its attributes and the three optional sections
  \<^verbatim>\<open>logs\<close>, \<^verbatim>\<open>tables\<close> and \<^verbatim>\<open>events\<close>, each a group.
\<close>

record h5file =
  file_attrs :: h5attrs
  logs :: "h5group option"
  tables :: "h5group option"
  events :: "h5group option"

text \<open>
  \<open>ValueError\<close>, \<open>KeyError\<close>, \<open>IndexError\<close> and \<open>TypeError\<close> are Python's; the
  argument is the message or the key. \<open>NameExists\<close> is the store refusing to create an
  object under a name that is already taken in the destination group.
\<close>

datatype error =
  ValueError string
  | KeyError string
  | IndexError
  | TypeError
  | NameExists string

datatype features = FeaturesAll | FeaturesScalar | FeaturesNone

text \<open>
  Three functions of h5py and numpy whose results rest on a size heuristic or on binary
  floating-point arithmetic are parameters of the model, and nothing is assumed of
  them: \<open>guess_chunk\<close>, the chunk shape h5py picks for a dataset that needs chunks and
  is created without a chunk shape; \<open>np_sum\<close>, numpy's sum of an array of numbers;
  \<open>np_divide\<close>, numpy's division of such a sum by a count.
\<close>

record library =
  guess_chunk :: "nat list \<Rightarrow> h5dtype \<Rightarrow> nat list"
  np_sum :: "fval list \<Rightarrow> fval"
  np_divide :: "fval \<Rightarrow> nat \<Rightarrow> fval"

section \<open>The compression policy\<close>

text \<open>
  \<^verbatim>\<open>create_plist.get_filter_by_id(32015)\<close> is \<open>None\<close> when the pipeline has no
  filter with that id; otherwise \<^verbatim>\<open>filter_args[1]\<close> is the tuple of client data
  values of the filter, whose first entry is the Zstandard level. Indexing an empty
  tuple raises \<open>IndexError\<close>.
\<close>

definition zstd_filter_id :: nat where
  "zstd_filter_id = 32015"

definition get_filter_by_id :: "h5filters \<Rightarrow> nat \<Rightarrow> nat list option" where
  "get_filter_by_id plist fid = map_of plist fid"

definition is_properly_compressed :: "dataset \<Rightarrow> error + bool" where
  "is_properly_compressed h5obj =
     (case get_filter_by_id (filters h5obj) zstd_filter_id of
        None \<Rightarrow> Inr False
      | Some cd_values \<Rightarrow>
          (case cd_values of
             [] \<Rightarrow> Inl IndexError
           | clevel # _ \<Rightarrow> Inr (5 \<le> clevel)))"

text \<open>\<^verbatim>\<open>hdf5plugin.Zstd(clevel=5)\<close>: the filter the copier writes.\<close>

definition compression_kwargs :: h5filters where
  "compression_kwargs = [(zstd_filter_id, [5])]"

section \<open>Attributes\<close>

text \<open>
  \<^verbatim>\<open>for key in src.attrs: dst.attrs[key] = src.attrs[key]\<close>, over the keys of
  the source in order. Assigning an attribute replaces the value of an existing name
  and adds a new name otherwise.
\<close>

fun copy_attrs :: "string list \<Rightarrow> h5attrs \<Rightarrow> h5attrs \<Rightarrow> h5attrs" where
  "copy_attrs [] src dst = dst"
| "copy_attrs (key # keys) src dst =
     (case map_of src key of
        None \<Rightarrow> copy_attrs keys src dst
      | Some v \<Rightarrow> copy_attrs keys src (AList.update key v dst))"

section \<open>Chunks\<close>

text \<open>
  Lines 97 to 110 of \<^verbatim>\<open>h5ds_copy\<close>: the chunk shape handed to
  \<^verbatim>\<open>create_dataset\<close>. \<^verbatim>\<open>src.chunks and ...\<close> is false for \<open>None\<close> and for
  the empty tuple; \<^verbatim>\<open>src.shape[0]\<close> raises \<open>IndexError\<close> on an empty shape.
\<close>

definition plan_chunks :: "nat list \<Rightarrow> nat list option \<Rightarrow> error + nat list option" where
  "plan_chunks src_shape src_chunks =
     (case src_chunks of
        None \<Rightarrow> Inr None
      | Some [] \<Rightarrow> Inr (Some [])
      | Some (c # cs) \<Rightarrow>
          (case src_shape of
             [] \<Rightarrow> Inl IndexError
           | n # _ \<Rightarrow> if n < c then Inr (Some (n # cs)) else Inr (Some (c # cs))))"

text \<open>
  \<^verbatim>\<open>src.iter_chunks()\<close> yields, for every chunk of the source, the tuple of slices
  that is the intersection of the chunk with the array. A slice is a pair of start and
  stop. Along one axis of extent \<open>n\<close> with chunk length \<open>c\<close> the slices are
  \<open>[0, c)\<close>, \<open>[c, 2c)\<close>, ..., the last one cut at \<open>n\<close>.
\<close>

definition axis_slices :: "nat \<Rightarrow> nat \<Rightarrow> (nat \<times> nat) list" where
  "axis_slices n c = map (\<lambda>k. (k * c, min ((k + 1) * c) n)) [0..<(n + c - 1) div c]"

definition iter_chunks :: "dataset \<Rightarrow> (nat \<times> nat) list list" where
  "iter_chunks h5ds =
     (case chunks h5ds of
        None \<Rightarrow> []
      | Some cs \<Rightarrow> product_lists (map2 axis_slices (shape h5ds) cs))"

text \<open>Row-major position of a multi-index in an array of the given shape.\<close>

fun flat_index :: "nat list \<Rightarrow> nat list \<Rightarrow> nat" where
  "flat_index (n # shp) (i # idx) = i * prod_list shp + flat_index shp idx"
| "flat_index _ _ = 0"

definition region_indices :: "(nat \<times> nat) list \<Rightarrow> nat list list" where
  "region_indices chunk = product_lists (map (\<lambda>(a, b). [a..<b]) chunk)"

text \<open>
  \<^verbatim>\<open>dst[chunk] = src[chunk]\<close> for two arrays of the same shape: every element of the
  region is read from the source and stored at the same index of the destination.
\<close>

definition write_elem :: "elem list \<Rightarrow> nat \<Rightarrow> elem list \<Rightarrow> elem list" where
  "write_elem src p dst = (if p < length src then dst[p := src ! p] else dst)"

definition write_region ::
  "nat list \<Rightarrow> elem list \<Rightarrow> (nat \<times> nat) list \<Rightarrow> elem list \<Rightarrow> elem list" where
  "write_region shp src chunk dst =
     fold (\<lambda>idx. write_elem src (flat_index shp idx)) (region_indices chunk) dst"

section \<open>Copying one dataset\<close>

definition dtype_zero :: "h5dtype \<Rightarrow> elem" where
  "dtype_zero dt = (case dt of NumericType \<Rightarrow> Num (Fin 0) | StringType \<Rightarrow> Txt [])"

text \<open>
  \<^verbatim>\<open>dst_loc.create_dataset(name, shape, dtype, chunks, fletcher32, **kwargs)\<close>: a new
  array filled with the zero of its element type and without attributes. h5py refuses,
  in this order: a chunk shape that is longer than the shape along some axis
  (\<open>ValueError\<close>; this is the refusal the comment in \<^verbatim>\<open>h5ds_copy\<close> speaks of); chunks,
  filters or a checksum on an array without axes (\<open>TypeError\<close>); a chunk shape whose
  rank is not that of the shape (\<open>ValueError\<close>); a chunk length of zero
  (\<open>ValueError\<close>); a name that is taken. A dataset with a filter or a checksum is
  chunked: when no chunk shape is given, h5py picks one. The messages are h5py's
  without the shapes and the quotation marks that it puts into them.
\<close>

definition chunk_exceeds :: "nat list \<Rightarrow> nat list \<Rightarrow> bool" where
  "chunk_exceeds cs shp = list_ex (\<lambda>(n, c). n < c) (zip shp cs)"

definition create_dataset ::
  "library \<Rightarrow> h5group \<Rightarrow> string \<Rightarrow> nat list \<Rightarrow> h5dtype \<Rightarrow> nat list option \<Rightarrow> bool
     \<Rightarrow> h5filters \<Rightarrow> error + dataset" where
  "create_dataset lib loc name shp dt chks f32 flt =
     (if (case chks of None \<Rightarrow> False | Some cs \<Rightarrow> chunk_exceeds cs shp)
      then Inl (ValueError ''Chunk shape must not be greater than data shape in any dimension.'')
      else if shp = [] \<and> ((case chks of None \<Rightarrow> False | Some cs \<Rightarrow> cs \<noteq> []) \<or> flt \<noteq> [] \<or> f32)
      then Inl TypeError
      else if (case chks of None \<Rightarrow> False | Some cs \<Rightarrow> length cs \<noteq> length shp)
      then Inl (ValueError ''chunks must have same rank as dataset shape'')
      else (let chosen = (case chks of
                            None \<Rightarrow> if f32 \<or> flt \<noteq> [] then Some (guess_chunk lib shp dt)
                                    else None
                          | Some cs \<Rightarrow> Some cs)
            in if (case chosen of None \<Rightarrow> False | Some cs \<Rightarrow> list_ex (\<lambda>c. c = 0) cs)
               then Inl (ValueError ''All chunk dimensions must be positive'')
               else if map_of loc name \<noteq> None then Inl (NameExists name)
               else Inr \<lparr>shape = shp, dtype = dt, chunks = chosen, filters = flt,
                         fletcher32 = f32,
                         content = replicate (prod_list shp) (dtype_zero dt), attrs = []\<rparr>))"

text \<open>
  \<^verbatim>\<open>h5py.h5o.copy\<close>: the object is copied as it is stored, with its filters, chunks,
  checksum flag, elements and attributes.
\<close>

definition h5o_copy :: "h5group \<Rightarrow> string \<Rightarrow> h5group \<Rightarrow> string \<Rightarrow> error + h5group" where
  "h5o_copy src_loc src_name dst_loc dst_name =
     (case map_of src_loc src_name of
        None \<Rightarrow> Inl (KeyError src_name)
      | Some obj \<Rightarrow>
          if map_of dst_loc dst_name \<noteq> None then Inl (NameExists dst_name)
          else Inr (dst_loc @ [(dst_name, obj)]))"

text \<open>
  \<^verbatim>\<open>dst_name or src_name\<close>: the second name when the first is \<open>None\<close> or the
  empty string.
\<close>

definition name_or :: "string option \<Rightarrow> string \<Rightarrow> string" where
  "name_or dst_name src_name =
     (case dst_name of
        None \<Rightarrow> src_name
      | Some n \<Rightarrow> if n = [] then src_name else n)"

text \<open>The message of the \<open>ValueError\<close> of \<^verbatim>\<open>h5ds_copy\<close> (the file name left out).\<close>

definition not_a_dataset :: "string \<Rightarrow> string" where
  "not_a_dataset src_name = ''The object '' @ src_name @ '' is not a dataset!''"

text \<open>
  \<^verbatim>\<open>h5ds_copy(src_loc, src_name, dst_loc, dst_name=None, ensure_compression=True)\<close>.
  The result is the destination group after the copy and the dataset
  \<^verbatim>\<open>dst_loc[dst_name]\<close>. On the re-encoding path the new dataset is written chunk
  by chunk over the chunks of the source, or in one piece when it has no chunk shape,
  and then receives the attributes of the source.
\<close>

definition h5ds_copy ::
  "library \<Rightarrow> h5group \<Rightarrow> string \<Rightarrow> h5group \<Rightarrow> string option \<Rightarrow> bool
     \<Rightarrow> error + (h5group \<times> dataset)" where
  "h5ds_copy lib src_loc src_name dst_loc dst_name ensure_compression =
     (let dname = name_or dst_name src_name
      in case map_of src_loc src_name of
        None \<Rightarrow> Inl (KeyError src_name)
      | Some (Group _) \<Rightarrow> Inl (ValueError (not_a_dataset src_name))
      | Some (Dataset src) \<Rightarrow>
          (case (if ensure_compression
                 then (case is_properly_compressed src of
                         Inl e \<Rightarrow> Inl e
                       | Inr ok \<Rightarrow> Inr (\<not> ok))
                 else Inr False) of
             Inl e \<Rightarrow> Inl e
           | Inr True \<Rightarrow>
               (case plan_chunks (shape src) (chunks src) of
                  Inl e \<Rightarrow> Inl e
                | Inr chks \<Rightarrow>
                    (case create_dataset lib dst_loc dname (shape src) (dtype src) chks True
                            compression_kwargs of
                       Inl e \<Rightarrow> Inl e
                     | Inr dst \<Rightarrow>
                         (let written =
                                (case chks of
                                   None \<Rightarrow> content src
                                 | Some _ \<Rightarrow>
                                     fold (write_region (shape src) (content src))
                                       (iter_chunks src)
                                       (content dst));
                              dst' = dst\<lparr>content := written,
                                         attrs := copy_attrs (map fst (attrs src)) (attrs src)
                                                    (attrs dst)\<rparr>
                          in Inr (dst_loc @ [(dname, Dataset dst')], dst'))))
           | Inr False \<Rightarrow>
               (case h5o_copy src_loc src_name dst_loc dname of
                  Inl e \<Rightarrow> Inl e
                | Inr dst_loc' \<Rightarrow> Inr (dst_loc', src))))"

section \<open>Summary statistics\<close>

text \<open>
  The order of the numbers, as IEEE comparison has it: NaN is neither below nor above
  anything.
\<close>

fun fv_less :: "fval \<Rightarrow> fval \<Rightarrow> bool" where
  "fv_less NaN _ = False"
| "fv_less _ NaN = False"
| "fv_less (Fin a) (Fin b) = (a < b)"
| "fv_less NInf NInf = False"
| "fv_less NInf _ = True"
| "fv_less _ NInf = False"
| "fv_less PInf _ = False"
| "fv_less _ PInf = True"

definition fv_min :: "fval \<Rightarrow> fval \<Rightarrow> fval" where
  "fv_min a b = (if fv_less b a then b else a)"

definition fv_max :: "fval \<Rightarrow> fval \<Rightarrow> fval" where
  "fv_max a b = (if fv_less a b then b else a)"

definition not_nan :: "fval \<Rightarrow> bool" where
  "not_nan x = (x \<noteq> NaN)"

text \<open>
  \<^verbatim>\<open>np.nanmin\<close>, \<^verbatim>\<open>np.nanmax\<close>: the least and the greatest element that is not
  NaN; NaN when every element is NaN; \<open>ValueError\<close> on an array without elements.
  Both select an element, so no rounding is involved.
\<close>

definition nanmin :: "fval list \<Rightarrow> error + fval" where
  "nanmin a =
     (if a = []
      then Inl (ValueError
                  ''zero-size array to reduction operation minimum which has no identity'')
      else case filter not_nan a of
             [] \<Rightarrow> Inr NaN
           | x # xs \<Rightarrow> Inr (fold fv_min xs x))"

definition nanmax :: "fval list \<Rightarrow> error + fval" where
  "nanmax a =
     (if a = []
      then Inl (ValueError
                  ''zero-size array to reduction operation maximum which has no identity'')
      else case filter not_nan a of
             [] \<Rightarrow> Inr NaN
           | x # xs \<Rightarrow> Inr (fold fv_max xs x))"

text \<open>
  \<^verbatim>\<open>np.nanmean\<close>, as numpy writes it: every NaN is replaced by zero, the array is
  summed with \<^verbatim>\<open>np.sum\<close>, and the sum is divided by the number of elements that are
  not NaN. The sum and the division are floating-point operations of numpy (they round
  and overflow); the model takes them from the library.
\<close>

definition nanmean :: "library \<Rightarrow> fval list \<Rightarrow> error + fval" where
  "nanmean lib a =
     Inr (np_divide lib
            (np_sum lib (map (\<lambda>x. if not_nan x then x else Fin 0) a))
            (length (filter not_nan a)))"

text \<open>
  The elements of a numeric array. Scalar features are numeric; on an array with a text
  element the reducers are taken to raise \<open>TypeError\<close>.
\<close>

fun as_numbers :: "elem list \<Rightarrow> error + fval list" where
  "as_numbers [] = Inr []"
| "as_numbers (Txt _ # _) = Inl TypeError"
| "as_numbers (Num x # xs) =
     (case as_numbers xs of Inl e \<Rightarrow> Inl e | Inr ys \<Rightarrow> Inr (x # ys))"

definition apply_ufunc :: "(fval list \<Rightarrow> error + fval) \<Rightarrow> dataset \<Rightarrow> error + fval" where
  "apply_ufunc ufunc dst =
     (case as_numbers (content dst) of Inl e \<Rightarrow> Inl e | Inr a \<Rightarrow> ufunc a)"

text \<open>
  Lines 53 to 58 of \<^verbatim>\<open>rtdc_copy\<close>: for each pair of reducer and attribute name, the
  attribute is computed and attached when the dataset does not have it.
\<close>

definition stat_ufuncs :: "library \<Rightarrow> ((fval list \<Rightarrow> error + fval) \<times> string) list" where
  "stat_ufuncs lib = [(nanmin, ''min''), (nanmax, ''max''), (nanmean lib, ''mean'')]"

fun complement_stats ::
  "((fval list \<Rightarrow> error + fval) \<times> string) list \<Rightarrow> dataset \<Rightarrow> error + dataset" where
  "complement_stats [] dst = Inr dst"
| "complement_stats ((ufunc, attr) # rest) dst =
     (if map_of (attrs dst) attr = None
      then (case apply_ufunc ufunc dst of
              Inl e \<Rightarrow> Inl e
            | Inr v \<Rightarrow>
                complement_stats rest (dst\<lparr>attrs := AList.update attr (AttrNum v) (attrs dst)\<rparr>))
      else complement_stats rest dst)"

section \<open>Copying a container\<close>

text \<open>
  The loops of \<^verbatim>\<open>rtdc_copy\<close> over the names of a source group. An exception leaves
  the loop at once; the error is returned with the destination group as it is then.
\<close>

fun copy_entries ::
  "library \<Rightarrow> h5group \<Rightarrow> string \<Rightarrow> string list \<Rightarrow> h5group
     \<Rightarrow> (error \<times> h5group) + h5group" where
  "copy_entries lib src_loc meta_prefix [] dst_loc = Inr dst_loc"
| "copy_entries lib src_loc meta_prefix (key # keys) dst_loc =
     (case h5ds_copy lib src_loc key dst_loc (Some (meta_prefix @ key)) True of
        Inl e \<Rightarrow> Inl (e, dst_loc)
      | Inr (dst_loc', _) \<Rightarrow> copy_entries lib src_loc meta_prefix keys dst_loc')"

text \<open>
  \<open>feature_exists\<close> and \<open>scalar_feature_exists\<close> belong to the feature registry
  (\<^verbatim>\<open>dclab.definitions\<close>); the copy takes them as parameters.
\<close>

fun copy_features ::
  "library \<Rightarrow> (string \<Rightarrow> bool \<Rightarrow> bool) \<Rightarrow> (string \<Rightarrow> bool) \<Rightarrow> bool \<Rightarrow> h5group
     \<Rightarrow> string list \<Rightarrow> h5group \<Rightarrow> (error \<times> h5group) + h5group" where
  "copy_features lib feature_exists scalar_feature_exists scalar_only src_loc [] dst_loc =
     Inr dst_loc"
| "copy_features lib feature_exists scalar_feature_exists scalar_only src_loc (feat # feats)
     dst_loc =
     (if feature_exists feat scalar_only
      then (case h5ds_copy lib src_loc feat dst_loc None True of
              Inl e \<Rightarrow> Inl (e, dst_loc)
            | Inr (dst_loc', dst) \<Rightarrow>
                if scalar_feature_exists feat
                then (case complement_stats (stat_ufuncs lib) dst of
                        Inl e \<Rightarrow> Inl (e, dst_loc')
                      | Inr dst' \<Rightarrow>
                          copy_features lib feature_exists scalar_feature_exists scalar_only
                            src_loc feats (AList.update feat (Dataset dst') dst_loc'))
                else copy_features lib feature_exists scalar_feature_exists scalar_only src_loc
                       feats dst_loc')
      else copy_features lib feature_exists scalar_feature_exists scalar_only src_loc feats
             dst_loc)"

text \<open>
  Lines 22 and 23 of \<^verbatim>\<open>rtdc_copy\<close>: every attribute of the source file is
  assigned to the destination file.
\<close>

definition copy_metadata :: "h5file \<Rightarrow> h5file \<Rightarrow> h5file" where
  "copy_metadata src_h5file dst_h5file =
     dst_h5file\<lparr>file_attrs :=
       copy_attrs (map fst (file_attrs src_h5file)) (file_attrs src_h5file)
         (file_attrs dst_h5file)\<rparr>"

text \<open>\<^verbatim>\<open>require_group\<close>: the group of that name, created empty when it is missing.\<close>

definition require_group :: "h5group option \<Rightarrow> h5group" where
  "require_group g = (case g of None \<Rightarrow> [] | Some members \<Rightarrow> members)"

definition copy_logs ::
  "library \<Rightarrow> h5file \<Rightarrow> h5file \<Rightarrow> bool \<Rightarrow> string \<Rightarrow> (error \<times> h5file) + h5file" where
  "copy_logs lib src_h5file dst_h5file include_logs meta_prefix =
     (if include_logs
      then (case logs src_h5file of
              None \<Rightarrow> Inr dst_h5file
            | Some src_logs \<Rightarrow>
                (case copy_entries lib src_logs meta_prefix (map fst src_logs)
                        (require_group (logs dst_h5file)) of
                   Inl (e, g) \<Rightarrow> Inl (e, dst_h5file\<lparr>logs := Some g\<rparr>)
                 | Inr g \<Rightarrow> Inr (dst_h5file\<lparr>logs := Some g\<rparr>)))
      else Inr dst_h5file)"

definition copy_tables ::
  "library \<Rightarrow> h5file \<Rightarrow> h5file \<Rightarrow> bool \<Rightarrow> string \<Rightarrow> (error \<times> h5file) + h5file" where
  "copy_tables lib src_h5file dst_h5file include_tables meta_prefix =
     (if include_tables
      then (case tables src_h5file of
              None \<Rightarrow> Inr dst_h5file
            | Some src_tables \<Rightarrow>
                (case copy_entries lib src_tables meta_prefix (map fst src_tables)
                        (require_group (tables dst_h5file)) of
                   Inl (e, g) \<Rightarrow> Inl (e, dst_h5file\<lparr>tables := Some g\<rparr>)
                 | Inr g \<Rightarrow> Inr (dst_h5file\<lparr>tables := Some g\<rparr>)))
      else Inr dst_h5file)"

text \<open>
  The features step creates the \<^verbatim>\<open>events\<close> group of the destination first and
  then reads \<^verbatim>\<open>src_h5file["events"]\<close>, a \<open>KeyError\<close> when the source has none.
\<close>

definition copy_events ::
  "library \<Rightarrow> (string \<Rightarrow> bool \<Rightarrow> bool) \<Rightarrow> (string \<Rightarrow> bool) \<Rightarrow> h5file \<Rightarrow> h5file \<Rightarrow> features
     \<Rightarrow> (error \<times> h5file) + h5file" where
  "copy_events lib feature_exists scalar_feature_exists src_h5file dst_h5file feats =
     (if feats \<noteq> FeaturesNone
      then (let scalar_only = (feats = FeaturesScalar);
                dst_events = require_group (events dst_h5file)
            in case events src_h5file of
                 None \<Rightarrow> Inl (KeyError ''events'', dst_h5file\<lparr>events := Some dst_events\<rparr>)
               | Some src_events \<Rightarrow>
                   (case copy_features lib feature_exists scalar_feature_exists scalar_only
                           src_events (map fst src_events) dst_events of
                      Inl (e, g) \<Rightarrow> Inl (e, dst_h5file\<lparr>events := Some g\<rparr>)
                    | Inr g \<Rightarrow> Inr (dst_h5file\<lparr>events := Some g\<rparr>)))
      else Inr dst_h5file)"

text \<open>
  \<^verbatim>\<open>rtdc_copy(src_h5file, dst_h5file, features, include_logs, include_tables,
  meta_prefix)\<close>: metadata, logs, tables, features, in this order. The result is the
  destination file, or the exception together with the destination as far as it was
  written.
\<close>

definition rtdc_copy ::
  "library \<Rightarrow> (string \<Rightarrow> bool \<Rightarrow> bool) \<Rightarrow> (string \<Rightarrow> bool) \<Rightarrow> h5file \<Rightarrow> h5file \<Rightarrow> features
     \<Rightarrow> bool \<Rightarrow> bool \<Rightarrow> string \<Rightarrow> (error \<times> h5file) + h5file" where
  "rtdc_copy lib feature_exists scalar_feature_exists src_h5file dst_h5file feats
     include_logs include_tables meta_prefix =
     (case copy_logs lib src_h5file (copy_metadata src_h5file dst_h5file) include_logs
             meta_prefix of
        Inl err \<Rightarrow> Inl err
      | Inr dst1 \<Rightarrow>
          (case copy_tables lib src_h5file dst1 include_tables meta_prefix of
             Inl err \<Rightarrow> Inl err
           | Inr dst2 \<Rightarrow>
               copy_events lib feature_exists scalar_feature_exists src_h5file dst2 feats))"

section \<open>Well-formed arrays\<close>

text \<open>
  What the store guarantees of every array it holds: there are as many elements as the
  shape says, a chunk shape has the rank of the shape and positive lengths, and no
  attribute name occurs twice.
\<close>

definition wf_dataset :: "dataset \<Rightarrow> bool" where
  "wf_dataset d =
     (length (content d) = prod_list (shape d)
      \<and> (case chunks d of
            None \<Rightarrow> True
          | Some cs \<Rightarrow> length cs = length (shape d) \<and> list_all (\<lambda>c. 0 < c) cs)
      \<and> distinct (map fst (attrs d)))"

text \<open>
  The dataset that the re-encoding path of \<open>h5ds_copy\<close> builds from the source and the
  planned chunk shape, when \<open>create_dataset\<close> accepts the plan. Without a planned
  chunk shape the chunk shape is the one the store picks.
\<close>

definition reencoded :: "library \<Rightarrow> dataset \<Rightarrow> nat list option \<Rightarrow> dataset" where
  "reencoded lib src chks =
     \<lparr>shape = shape src, dtype = dtype src,
      chunks = (case chks of
                  None \<Rightarrow> Some (guess_chunk lib (shape src) (dtype src))
                | Some cs \<Rightarrow> Some cs),
      filters = compression_kwargs,
      fletcher32 = True,
      content = (case chks of
                   None \<Rightarrow> content src
                 | Some _ \<Rightarrow>
                     fold (write_region (shape src) (content src)) (iter_chunks src)
                       (replicate (prod_list (shape src)) (dtype_zero (dtype src)))),
      attrs = copy_attrs (map fst (attrs src)) (attrs src) []\<rparr>"

text \<open>
  The requests that \<open>create_dataset\<close> accepts from \<open>h5ds_copy\<close> under a free name:
  the array has an axis, a given chunk shape has the rank of the shape and along every
  axis a length that is positive and not longer than the axis, and a chunk shape picked
  by the store has positive lengths. A dataset is \<open>copyable\<close> with
  \<open>ensure_compression\<close> when it is properly compressed already, or when it is not and
  such a request results from its shape and chunk shape.
\<close>

definition create_accepts :: "library \<Rightarrow> nat list \<Rightarrow> h5dtype \<Rightarrow> nat list option \<Rightarrow> bool" where
  "create_accepts lib shp dt chks =
     (shp \<noteq> []
      \<and> (case chks of
            None \<Rightarrow> list_all (\<lambda>c. 0 < c) (guess_chunk lib shp dt)
          | Some cs \<Rightarrow> list_all2 (\<lambda>c n. 0 < c \<and> c \<le> n) cs shp))"

definition copyable :: "library \<Rightarrow> dataset \<Rightarrow> bool" where
  "copyable lib d =
     (case is_properly_compressed d of
        Inl e \<Rightarrow> False
      | Inr True \<Rightarrow> True
      | Inr False \<Rightarrow>
          (case plan_chunks (shape d) (chunks d) of
             Inl e \<Rightarrow> False
           | Inr chks \<Rightarrow> create_accepts lib (shape d) (dtype d) chks))"

text \<open>
  The chunk invariant of the specification: a defined chunk shape is not longer than
  the array along the first axis.
\<close>

definition chunks_fit :: "dataset \<Rightarrow> bool" where
  "chunks_fit d =
     (case chunks d of
        None \<Rightarrow> True
      | Some [] \<Rightarrow> True
      | Some (c # _) \<Rightarrow> (case shape d of [] \<Rightarrow> False | n # _ \<Rightarrow> c \<le> n))"

text \<open>
  Two arrays with the same shape, element type, elements and attributes; they may
  differ in how they are stored (chunk shape, filters, checksum).
\<close>

definition same_array :: "dataset \<Rightarrow> dataset \<Rightarrow> bool" where
  "same_array a b =
     (shape a = shape b \<and> dtype a = dtype b \<and> content a = content b \<and> attrs a = attrs b)"

section \<open>Example inputs\<close>

text \<open>
  A library for the examples. Its chunk guess is what h5py's heuristic returns for an
  array of at most 8 KiB, an extent of zero counted as 1024: the shape itself, with
  1024 in place of an extent of zero. Its sum and quotient are the exact ones, extended
  to the infinities and NaN as IEEE arithmetic has them. They agree with numpy on the
  arrays of the examples, whose elements are small whole numbers and infinities: every
  partial sum is exact there and the only quotient that occurs is infinite.
\<close>

fun fv_add :: "fval \<Rightarrow> fval \<Rightarrow> fval" where
  "fv_add NaN _ = NaN"
| "fv_add _ NaN = NaN"
| "fv_add (Fin a) (Fin b) = Fin (a + b)"
| "fv_add PInf NInf = NaN"
| "fv_add NInf PInf = NaN"
| "fv_add PInf _ = PInf"
| "fv_add _ PInf = PInf"
| "fv_add NInf _ = NInf"
| "fv_add _ NInf = NInf"

fun fv_div_count :: "fval \<Rightarrow> nat \<Rightarrow> fval" where
  "fv_div_count NaN _ = NaN"
| "fv_div_count (Fin a) n = (if n = 0 then (if a = 0 then NaN else if 0 < a then PInf else NInf)
                             else Fin (a / of_nat n))"
| "fv_div_count PInf _ = PInf"
| "fv_div_count NInf _ = NInf"

definition small_library :: library where
  "small_library =
     \<lparr>guess_chunk = (\<lambda>shp dt. map (\<lambda>n. if n = 0 then 1024 else n) shp),
      np_sum = (\<lambda>xs. fold (\<lambda>x tot. fv_add tot x) xs (Fin 0)),
      np_divide = fv_div_count\<rparr>"

text \<open>
  A scalar feature array of four events, stored in chunks of two events with
  Zstandard at level 7.
\<close>

definition zstd7 :: dataset where
  "zstd7 = \<lparr>shape = [4], dtype = NumericType, chunks = Some [2],
     filters = [(32015, [7])], fletcher32 = False,
     content = [Num (Fin 1), Num NaN, Num (Fin 3), Num PInf], attrs = []\<rparr>"

text \<open>
  A scalar feature array of five events that was written in chunks of ten events (the
  writer reserved room for more events than were recorded), with Zstandard at level 5.
\<close>

definition short5 :: dataset where
  "short5 = \<lparr>shape = [5], dtype = NumericType, chunks = Some [10],
     filters = [(32015, [5])], fletcher32 = False,
     content = [Num (Fin 1), Num (Fin 2), Num (Fin 3), Num (Fin 4), Num (Fin 5)],
     attrs = [(''unit'', AttrStr ''um'')]\<rparr>"

text \<open>The array \<open>zstd7\<close> with the statistics of its four elements attached.\<close>

definition zstd7_stats :: dataset where
  "zstd7_stats = zstd7\<lparr>attrs := [(''min'', AttrNum (Fin 1)), (''max'', AttrNum PInf),
     (''mean'', AttrNum PInf)]\<rparr>"

text \<open>
  A feature registry with the scalar feature \<open>deform\<close> and the image feature
  \<open>image\<close>.
\<close>

definition demo_feature_exists :: "string \<Rightarrow> bool \<Rightarrow> bool" where
  "demo_feature_exists name scalar_only =
     (name = ''deform'' \<or> (name = ''image'' \<and> \<not> scalar_only))"

definition demo_scalar_feature_exists :: "string \<Rightarrow> bool" where
  "demo_scalar_feature_exists name = demo_feature_exists name True"

text \<open>A log of two lines, stored without chunks and without compression.\<close>

definition session_log :: dataset where
  "session_log = \<lparr>shape = [2], dtype = StringType, chunks = None, filters = [],
     fletcher32 = False, content = [Txt ''start'', Txt ''stop''], attrs = []\<rparr>"

text \<open>
  A table of three rows and two columns, stored in chunks of two rows without
  compression, with one attribute.
\<close>

definition monitor_table :: dataset where
  "monitor_table = \<lparr>shape = [3, 2], dtype = NumericType, chunks = Some [2, 2], filters = [],
     fletcher32 = False,
     content = [Num (Fin 0), Num (Fin 10), Num (Fin 1), Num (Fin 12), Num (Fin 2), Num (Fin 11)],
     attrs = [(''columns'', AttrStr ''time, pressure'')]\<rparr>"

text \<open>
  A measurement with that log, that table and the feature \<open>deform\<close>, and an empty
  file.
\<close>

definition demo_file :: h5file where
  "demo_file = \<lparr>file_attrs = [(''setup:channel width'', AttrNum (Fin 20))],
     logs = Some [(''session'', Dataset session_log)],
     tables = Some [(''monitor'', Dataset monitor_table)],
     events = Some [(''deform'', Dataset zstd7)]\<rparr>"

definition empty_file :: h5file where
  "empty_file = \<lparr>file_attrs = [], logs = None, tables = None, events = None\<rparr>"

text \<open>One image of two by two pixels, properly compressed.\<close>

definition image_ds :: dataset where
  "image_ds = \<lparr>shape = [1, 2, 2], dtype = NumericType, chunks = Some [1, 2, 2],
     filters = [(32015, [5])], fletcher32 = True,
     content = [Num (Fin 0), Num (Fin 255), Num (Fin 255), Num (Fin 0)], attrs = []\<rparr>"

text \<open>
  A file whose \<open>events\<close> hold a scalar feature, an image feature and an entry that is
  no feature of the registry; and a file in which the entry \<open>image\<close> is a group.
\<close>

definition feature_file :: h5file where
  "feature_file = \<lparr>file_attrs = [], logs = None, tables = None,
     events = Some [(''deform'', Dataset zstd7), (''image'', Dataset image_ds),
                    (''notes'', Group [])]\<rparr>"

definition broken_file :: h5file where
  "broken_file = \<lparr>file_attrs = [], logs = None, tables = None,
     events = Some [(''deform'', Dataset zstd7), (''image'', Group []),
                    (''notes'', Dataset zstd7)]\<rparr>"

text \<open>
  A scalar feature without events, stored without chunks and without compression, and
  a file that holds it.
\<close>

definition no_events :: dataset where
  "no_events = \<lparr>shape = [0], dtype = NumericType, chunks = None, filters = [],
     fletcher32 = False, content = [], attrs = []\<rparr>"


section \<open>Properties of the compression policy and the chunk planning\<close>

lemma is_properly_compressed_True_iff:
  "is_properly_compressed h = Inr True \<longleftrightarrow>
     (\<exists>clevel rest. get_filter_by_id (filters h) zstd_filter_id = Some (clevel # rest)
        \<and> 5 \<le> clevel)"
  by (auto simp: is_properly_compressed_def split: option.splits list.splits)

text \<open>
  Claim C4. \<open>is_properly_compressed\<close> answers true exactly when the filter pipeline has
  the Zstandard filter (id 32015) and the level, its first client data value, is at
  least 5. It answers false when the pipeline has no Zstandard filter (another codec,
  or no filter at all) and when the level is below 5. The answer depends on the filter
  pipeline alone: changing the elements, the shape, the chunk shape, the checksum flag
  or the attributes does not change it. (A Zstandard filter stored without any client
  data value has no level; there the code raises \<open>IndexError\<close>.)
\<close>

theorem is_properly_compressed_policy:
  "(is_properly_compressed h = Inr True \<longleftrightarrow>
      (\<exists>clevel rest. get_filter_by_id (filters h) zstd_filter_id = Some (clevel # rest)
         \<and> 5 \<le> clevel))
   \<and> (zstd_filter_id \<notin> fst ` set (filters h) \<longrightarrow> is_properly_compressed h = Inr False)
   \<and> (filters h = [] \<longrightarrow> is_properly_compressed h = Inr False)
   \<and> (\<forall>clevel rest. get_filter_by_id (filters h) zstd_filter_id = Some (clevel # rest)
         \<and> clevel < 5 \<longrightarrow> is_properly_compressed h = Inr False)
   \<and> is_properly_compressed
        (h\<lparr>shape := s, dtype := t, chunks := c, fletcher32 := f, content := d, attrs := a\<rparr>)
       = is_properly_compressed h"
proof -
  have none: "zstd_filter_id \<notin> fst ` set (filters h) \<Longrightarrow> is_properly_compressed h = Inr False"
  proof -
    assume "zstd_filter_id \<notin> fst ` set (filters h)"
    then have "map_of (filters h) zstd_filter_id = None"
      by (simp add: map_of_eq_None_iff)
    then show ?thesis
      by (simp add: is_properly_compressed_def get_filter_by_id_def)
  qed
  have low: "\<And>clevel rest. get_filter_by_id (filters h) zstd_filter_id = Some (clevel # rest)
       \<Longrightarrow> clevel < 5 \<Longrightarrow> is_properly_compressed h = Inr False"
    by (simp add: is_properly_compressed_def)
  have meta: "is_properly_compressed
        (h\<lparr>shape := s, dtype := t, chunks := c, fletcher32 := f, content := d, attrs := a\<rparr>)
       = is_properly_compressed h"
    by (simp add: is_properly_compressed_def)
  from none have empty: "filters h = [] \<Longrightarrow> is_properly_compressed h = Inr False"
    by simp
  show ?thesis using is_properly_compressed_True_iff none low meta empty by blast
qed

theorem is_properly_compressed_policy_witness:
  "is_properly_compressed zstd7 = Inr True
   \<and> is_properly_compressed (zstd7\<lparr>filters := [(32001, [9])]\<rparr>) = Inr False
   \<and> is_properly_compressed (zstd7\<lparr>filters := []\<rparr>) = Inr False
   \<and> is_properly_compressed (zstd7\<lparr>filters := [(32015, [3])]\<rparr>) = Inr False"
proof -
  have a: "is_properly_compressed zstd7 = Inr True"
    using is_properly_compressed_policy [of zstd7]
    by (simp add: zstd7_def get_filter_by_id_def zstd_filter_id_def)
  have b: "is_properly_compressed (zstd7\<lparr>filters := [(32001, [9])]\<rparr>) = Inr False"
    using is_properly_compressed_policy [of "zstd7\<lparr>filters := [(32001, [9])]\<rparr>"]
    by (simp add: zstd_filter_id_def)
  have c: "is_properly_compressed (zstd7\<lparr>filters := []\<rparr>) = Inr False"
    using is_properly_compressed_policy [of "zstd7\<lparr>filters := []\<rparr>"]
    by simp
  have d: "is_properly_compressed (zstd7\<lparr>filters := [(32015, [3])]\<rparr>) = Inr False"
    using is_properly_compressed_policy [of "zstd7\<lparr>filters := [(32015, [3])]\<rparr>"]
    by (simp add: get_filter_by_id_def zstd_filter_id_def)
  show ?thesis using a b c d by simp
qed

text \<open>
  Claim C6. The chunk planning of \<open>h5ds_copy\<close>: an undefined chunk shape is returned
  unchanged; a chunk shape whose first axis exceeds the first axis of the shape is
  returned with that axis replaced by \<open>shape[0]\<close> and every other axis as it was; any
  other chunk shape is returned unchanged. (On an array without axes there is no
  \<open>shape[0]\<close> to compare a chunk length with; there the code raises \<open>IndexError\<close>.)
\<close>

theorem plan_chunks_cases:
  "plan_chunks shp None = Inr None
   \<and> plan_chunks shp (Some []) = Inr (Some [])
   \<and> (n < c \<longrightarrow> plan_chunks (n # shp) (Some (c # cs)) = Inr (Some (n # cs)))
   \<and> (c \<le> n \<longrightarrow> plan_chunks (n # shp) (Some (c # cs)) = Inr (Some (c # cs)))"
proof -
  have undefined_chunks: "plan_chunks shp None = Inr None"
    by (simp add: plan_chunks_def)
  have no_axis: "plan_chunks shp (Some []) = Inr (Some [])"
    by (simp add: plan_chunks_def)
  have too_long: "n < c \<Longrightarrow> plan_chunks (n # shp) (Some (c # cs)) = Inr (Some (n # cs))"
    by (simp add: plan_chunks_def)
  have fits: "c \<le> n \<Longrightarrow> plan_chunks (n # shp) (Some (c # cs)) = Inr (Some (c # cs))"
    by (simp add: plan_chunks_def)
  show ?thesis using undefined_chunks no_axis too_long fits by blast
qed

theorem plan_chunks_cases_witness:
  "plan_chunks [5, 80, 320] (Some [32, 80, 320]) = Inr (Some [5, 80, 320])
   \<and> plan_chunks [100, 80, 320] (Some [32, 80, 320]) = Inr (Some [32, 80, 320])
   \<and> plan_chunks [5] None = Inr None"
  using plan_chunks_cases [of "[80, 320]" 5 32 "[80, 320]"]
    plan_chunks_cases [of "[80, 320]" 100 32 "[80, 320]"]
    plan_chunks_cases [of "[5]"]
  by simp

section \<open>The chunk-wise write stores every element\<close>

text \<open>
  A fold of element writes leaves the length alone, and afterwards a position holds
  the element of the source when it was written and its old element otherwise.
\<close>

lemma length_fold_write_elem:
  "length (fold (write_elem src) ps dst) = length dst"
  by (induction ps arbitrary: dst) (simp_all add: write_elem_def)

lemma nth_fold_write_elem:
  "length src = length dst \<Longrightarrow> q < length dst \<Longrightarrow>
   fold (write_elem src) ps dst ! q = (if q \<in> set ps then src ! q else dst ! q)"
proof (induction ps arbitrary: dst)
  case Nil
  then show ?case by simp
next
  case (Cons p ps)
  let ?d = "write_elem src p dst"
  have len: "length src = length ?d" and q: "q < length ?d"
    using Cons.prems by (simp_all add: write_elem_def)
  have step: "?d ! q = (if q = p then src ! q else dst ! q)"
    using Cons.prems by (auto simp: write_elem_def)
  show ?case
    using Cons.IH [OF len q] step by auto
qed

lemma write_region_positions:
  "write_region shp src chunk dst =
     fold (write_elem src) (map (flat_index shp) (region_indices chunk)) dst"
  by (simp add: write_region_def fold_map comp_def)

lemma fold_write_region_positions:
  "fold (write_region shp src) cks dst =
     fold (write_elem src) (concat (map (\<lambda>ck. map (flat_index shp) (region_indices ck)) cks)) dst"
  by (induction cks arbitrary: dst) (simp_all add: write_region_positions)

text \<open>
  Every index below the extent of an axis lies in one of the slices of that axis, and
  so every position of the array lies in the region of one chunk.
\<close>

lemma slice_index_bound:
  assumes "0 < (c::nat)" and "i < n"
  shows "i div c < (n + c - 1) div c"
proof -
  from assms obtain m where n: "n = Suc m" by (cases n) auto
  have "i div c \<le> m div c"
  proof (rule div_le_mono)
    show "i \<le> m" using assms n by simp
  qed
  moreover have "(m + c) div c = m div c + 1"
    using assms by simp
  ultimately show ?thesis using n by simp
qed

lemma axis_slices_cover:
  assumes "0 < c" and "i < n"
  shows "\<exists>a b. (a, b) \<in> set (axis_slices n c) \<and> a \<le> i \<and> i < b"
proof -
  let ?k = "i div c"
  have "(?k * c, min ((?k + 1) * c) n) \<in> set (axis_slices n c)"
    using slice_index_bound [OF assms] by (auto simp: axis_slices_def)
  moreover have "?k * c \<le> i" by simp
  moreover have "i < min ((?k + 1) * c) n"
    using assms by (simp add: dividend_less_div_times)
  ultimately show ?thesis by blast
qed

lemma chunks_cover:
  "length cs = length shp \<Longrightarrow> list_all (\<lambda>c. 0 < c) cs \<Longrightarrow> p < prod_list shp \<Longrightarrow>
   \<exists>ck \<in> set (product_lists (map2 axis_slices shp cs)).
     \<exists>idx \<in> set (region_indices ck). flat_index shp idx = p"
proof (induction shp arbitrary: cs p)
  case Nil
  then show ?case by (simp add: region_indices_def)
next
  case (Cons n shp)
  then obtain c cs' where cs: "cs = c # cs'" by (cases cs) auto
  let ?P = "prod_list shp"
  from Cons.prems cs have c: "0 < c" and len: "length cs' = length shp"
    and pos: "list_all (\<lambda>c. 0 < c) cs'" by simp_all
  from Cons.prems have p: "p < n * ?P" by simp
  then have P: "0 < ?P" by (cases "?P = 0") auto
  have i: "p div ?P < n" using p P by (simp add: less_mult_imp_div_less mult.commute)
  have r: "p mod ?P < ?P" using P by simp
  from Cons.IH [OF len pos r] obtain ck idx
    where ck: "ck \<in> set (product_lists (map2 axis_slices shp cs'))"
      and idx: "idx \<in> set (region_indices ck)"
      and flat: "flat_index shp idx = p mod ?P" by blast
  from axis_slices_cover [OF c i] obtain a b
    where ab: "(a, b) \<in> set (axis_slices n c)" and lo: "a \<le> p div ?P" and hi: "p div ?P < b"
    by blast
  have "(a, b) # ck \<in> set (product_lists (map2 axis_slices (n # shp) cs))"
    using ab ck cs by auto
  moreover have "(p div ?P) # idx \<in> set (region_indices ((a, b) # ck))"
    using idx lo hi by (auto simp: region_indices_def)
  moreover have "flat_index (n # shp) ((p div ?P) # idx) = p"
    using flat by simp
  ultimately show ?case by blast
qed

lemma chunked_write_complete:
  assumes wf: "wf_dataset src" and cs: "chunks src = Some cs"
    and dst: "length dst = prod_list (shape src)"
  shows "fold (write_region (shape src) (content src)) (iter_chunks src) dst = content src"
proof (rule nth_equalityI)
  let ?ps = "concat (map (\<lambda>ck. map (flat_index (shape src)) (region_indices ck)) (iter_chunks src))"
  have len: "length (content src) = length dst"
    using wf dst by (simp add: wf_dataset_def)
  show "length (fold (write_region (shape src) (content src)) (iter_chunks src) dst)
          = length (content src)"
    using len by (simp add: fold_write_region_positions length_fold_write_elem)
  fix q
  assume "q < length (fold (write_region (shape src) (content src)) (iter_chunks src) dst)"
  then have q: "q < length dst"
    by (simp add: fold_write_region_positions length_fold_write_elem)
  from wf cs have "length cs = length (shape src)" and "list_all (\<lambda>c. 0 < c) cs"
    by (simp_all add: wf_dataset_def)
  from chunks_cover [OF this, of q] q dst cs have "q \<in> set ?ps"
    by (auto simp: iter_chunks_def)
  then show "fold (write_region (shape src) (content src)) (iter_chunks src) dst ! q
               = content src ! q"
    using nth_fold_write_elem [OF len q, of ?ps]
    by (simp add: fold_write_region_positions)
qed

section \<open>Attributes after the attribute loop\<close>



lemma update_fresh:
  "k \<notin> fst ` set al \<Longrightarrow> AList.update k v al = al @ [(k, v)]"
  by (induction al) auto

lemma copy_attrs_append:
  "distinct (map fst (dst @ xs)) \<Longrightarrow> \<forall>(k, v) \<in> set xs. map_of src k = Some v \<Longrightarrow>
   copy_attrs (map fst xs) src dst = dst @ xs"
proof (induction xs arbitrary: dst)
  case Nil
  then show ?case by simp
next
  case (Cons x xs)
  obtain k v where x: "x = (k, v)" by (cases x)
  from Cons.prems x have fresh: "k \<notin> fst ` set dst" and look: "map_of src k = Some v"
    by auto
  have "distinct (map fst ((dst @ [(k, v)]) @ xs))"
    using Cons.prems(1) x by simp
  moreover have "\<forall>(k, v) \<in> set xs. map_of src k = Some v"
    using Cons.prems(2) by simp
  ultimately have "copy_attrs (map fst xs) src (dst @ [(k, v)]) = (dst @ [(k, v)]) @ xs"
    by (rule Cons.IH)
  then show ?case
    using x look fresh by (simp add: update_fresh)
qed

lemma copy_attrs_distinct:
  assumes "distinct (map fst src)"
  shows "copy_attrs (map fst src) src [] = src"
proof -
  have "\<forall>(k, v) \<in> set src. map_of src k = Some v"
    using assms by auto
  with copy_attrs_append [of "[]" src src] assms show ?thesis by simp
qed

section \<open>The two paths of \<open>h5ds_copy\<close>\<close>

lemma plan_chunks_Some:
  "plan_chunks shp chks = Inr (Some c) \<Longrightarrow> \<exists>cs. chks = Some cs"
  by (cases chks) (simp_all add: plan_chunks_def)

lemma plan_chunks_None:
  "plan_chunks shp chks = Inr None \<Longrightarrow> chks = None"
  by (auto simp: plan_chunks_def split: option.splits list.splits if_splits)

subsection \<open>What \<open>create_dataset\<close> accepts\<close>

lemma chunk_accepted_iff:
  "(\<not> chunk_exceeds cs shp \<and> length cs = length shp \<and> \<not> list_ex (\<lambda>c. c = 0) cs) =
   list_all2 (\<lambda>c n. 0 < c \<and> c \<le> n) cs shp"
proof (induction cs arbitrary: shp)
  case Nil
  then show ?case by (simp add: chunk_exceeds_def)
next
  case (Cons c cs)
  show ?case
  proof (cases shp)
    case Nil
    then show ?thesis by simp
  next
    case (Cons n ns)
    have "chunk_exceeds (c # cs) (n # ns) = (n < c \<or> chunk_exceeds cs ns)"
      by (simp add: chunk_exceeds_def)
    with Cons.IH [of ns] Cons show ?thesis by auto
  qed
qed

lemma zero_chunk_iff: "list_ex (\<lambda>c. c = 0) cs = (\<not> list_all (\<lambda>c. 0 < c) (cs::nat list))"
  by (induction cs) auto

lemma create_dataset_accepted:
  assumes acc: "create_accepts lib shp dt chks" and free: "map_of loc name = None"
  shows "create_dataset lib loc name shp dt chks True compression_kwargs =
           Inr \<lparr>shape = shp, dtype = dt,
                chunks = (case chks of
                            None \<Rightarrow> Some (guess_chunk lib shp dt)
                          | Some cs \<Rightarrow> Some cs),
                filters = compression_kwargs, fletcher32 = True,
                content = replicate (prod_list shp) (dtype_zero dt), attrs = []\<rparr>"
proof (cases chks)
  case None
  with acc free show ?thesis
    by (simp add: create_dataset_def create_accepts_def zero_chunk_iff)
next
  case (Some cs)
  with acc have "list_all2 (\<lambda>c n. 0 < c \<and> c \<le> n) cs shp" and "shp \<noteq> []"
    by (simp_all add: create_accepts_def)
  then have "\<not> chunk_exceeds cs shp" "length cs = length shp" "\<not> list_ex (\<lambda>c. c = 0) cs"
    using chunk_accepted_iff [of cs shp] by simp_all
  with Some free \<open>shp \<noteq> []\<close> show ?thesis
    by (simp add: create_dataset_def)
qed

lemma create_dataset_InrD:
  assumes "create_dataset lib loc name shp dt chks True compression_kwargs = Inr d"
  shows "create_accepts lib shp dt chks \<and> map_of loc name = None"
proof (cases chks)
  case None
  with assms show ?thesis
    by (simp add: create_dataset_def create_accepts_def zero_chunk_iff split: if_splits)
next
  case (Some cs)
  with assms have "\<not> chunk_exceeds cs shp" "length cs = length shp"
    "\<not> list_ex (\<lambda>c. c = 0) cs" "shp \<noteq> []" "map_of loc name = None"
    by (simp_all add: create_dataset_def split: if_splits)
  with Some chunk_accepted_iff [of cs shp] show ?thesis
    by (simp add: create_accepts_def)
qed


lemma create_accepts_planned:
  assumes plan: "plan_chunks shp (Some cs) = Inr chks" and acc: "create_accepts lib shp dt chks"
  shows "\<exists>ps. chks = Some ps \<and> list_all2 (\<lambda>c n. 0 < c \<and> c \<le> n) ps shp"
proof (cases chks)
  case None
  with plan show ?thesis by (auto dest: plan_chunks_None)
next
  case (Some ps)
  with acc show ?thesis by (simp add: create_accepts_def)
qed

subsection \<open>The dataset that is written\<close>

lemma reencoded_wf:
  assumes wf: "wf_dataset src" and plan: "plan_chunks (shape src) (chunks src) = Inr chks"
  shows "reencoded lib src chks =
           src\<lparr>chunks := (case chks of
                            None \<Rightarrow> Some (guess_chunk lib (shape src) (dtype src))
                          | Some cs \<Rightarrow> Some cs),
               filters := compression_kwargs, fletcher32 := True\<rparr>"
proof -
  have att: "copy_attrs (map fst (attrs src)) (attrs src) [] = attrs src"
    using wf by (simp add: wf_dataset_def copy_attrs_distinct)
  have con: "(case chks of
                None \<Rightarrow> content src
              | Some _ \<Rightarrow>
                  fold (write_region (shape src) (content src)) (iter_chunks src)
                    (replicate (prod_list (shape src)) (dtype_zero (dtype src)))) = content src"
  proof (cases chks)
    case None
    then show ?thesis by simp
  next
    case (Some c)
    with plan obtain cs where "chunks src = Some cs"
      using plan_chunks_Some by blast
    from chunked_write_complete [OF wf this] Some show ?thesis by simp
  qed
  show ?thesis
    unfolding reencoded_def att con by simp
qed

lemma h5ds_copy_not_found:
  "map_of src_loc src_name = None \<Longrightarrow>
   h5ds_copy lib src_loc src_name dst_loc dst_name ensure = Inl (KeyError src_name)"
  by (simp add: h5ds_copy_def)

lemma h5ds_copy_group:
  "map_of src_loc src_name = Some (Group members) \<Longrightarrow>
   h5ds_copy lib src_loc src_name dst_loc dst_name ensure =
     Inl (ValueError (not_a_dataset src_name))"
  by (simp add: h5ds_copy_def)

lemma h5ds_copy_verbatim_eq:
  assumes "map_of src_loc src_name = Some (Dataset src)"
    and "\<not> ensure \<or> is_properly_compressed src = Inr True"
  shows "h5ds_copy lib src_loc src_name dst_loc dst_name ensure =
           (if map_of dst_loc (name_or dst_name src_name) \<noteq> None
            then Inl (NameExists (name_or dst_name src_name))
            else Inr (dst_loc @ [(name_or dst_name src_name, Dataset src)], src))"
  using assms by (auto simp: h5ds_copy_def h5o_copy_def)

lemma h5ds_copy_reencode_eq:
  assumes src: "map_of src_loc src_name = Some (Dataset src)"
    and ipc: "is_properly_compressed src = Inr False"
  shows "h5ds_copy lib src_loc src_name dst_loc dst_name True =
           (case plan_chunks (shape src) (chunks src) of
              Inl e \<Rightarrow> Inl e
            | Inr chks \<Rightarrow>
                (case create_dataset lib dst_loc (name_or dst_name src_name) (shape src)
                        (dtype src) chks True compression_kwargs of
                   Inl e \<Rightarrow> Inl e
                 | Inr created \<Rightarrow>
                     Inr (dst_loc @ [(name_or dst_name src_name,
                                      Dataset (reencoded lib src chks))],
                          reencoded lib src chks)))"
proof (cases "plan_chunks (shape src) (chunks src)")
  case (Inl e)
  with src ipc show ?thesis by (simp add: h5ds_copy_def)
next
  case plan: (Inr chks)
  show ?thesis
  proof (cases "create_dataset lib dst_loc (name_or dst_name src_name) (shape src)
                  (dtype src) chks True compression_kwargs")
    case (Inl e)
    with src ipc plan show ?thesis by (simp add: h5ds_copy_def)
  next
    case (Inr created)
    from create_dataset_InrD [OF Inr]
    have "create_accepts lib (shape src) (dtype src) chks"
      and "map_of dst_loc (name_or dst_name src_name) = None"
      by simp_all
    from create_dataset_accepted [OF this] Inr
    have created: "created =
           \<lparr>shape = shape src, dtype = dtype src,
            chunks = (case chks of
                        None \<Rightarrow> Some (guess_chunk lib (shape src) (dtype src))
                      | Some cs \<Rightarrow> Some cs),
            filters = compression_kwargs, fletcher32 = True,
            content = replicate (prod_list (shape src)) (dtype_zero (dtype src)),
            attrs = []\<rparr>"
      by simp
    show ?thesis
    proof (cases chks)
      case None
      with src ipc plan Inr show ?thesis
        unfolding created by (simp add: h5ds_copy_def reencoded_def Let_def)
    next
      case (Some cs)
      with src ipc plan Inr show ?thesis
        unfolding created by (simp add: h5ds_copy_def reencoded_def Let_def)
    qed
  qed
qed

lemma h5ds_copy_error_eq:
  assumes "map_of src_loc src_name = Some (Dataset src)"
    and "is_properly_compressed src = Inl e"
  shows "h5ds_copy lib src_loc src_name dst_loc dst_name True = Inl e"
  using assms by (simp add: h5ds_copy_def)

lemma h5ds_copy_verbatim:
  assumes "map_of src_loc src_name = Some (Dataset src)"
    and "map_of dst_loc (name_or dst_name src_name) = None"
    and "\<not> ensure \<or> is_properly_compressed src = Inr True"
  shows "h5ds_copy lib src_loc src_name dst_loc dst_name ensure =
           Inr (dst_loc @ [(name_or dst_name src_name, Dataset src)], src)"
  using assms by (simp add: h5ds_copy_verbatim_eq)

lemma h5ds_copy_reencode:
  assumes "map_of src_loc src_name = Some (Dataset src)"
    and "map_of dst_loc (name_or dst_name src_name) = None"
    and "is_properly_compressed src = Inr False"
    and "plan_chunks (shape src) (chunks src) = Inr chks"
    and "create_accepts lib (shape src) (dtype src) chks"
  shows "h5ds_copy lib src_loc src_name dst_loc dst_name True =
           Inr (dst_loc @ [(name_or dst_name src_name, Dataset (reencoded lib src chks))],
                reencoded lib src chks)"
  using assms by (simp add: h5ds_copy_reencode_eq create_dataset_accepted)


lemma h5ds_copy_InrE:
  assumes ok: "h5ds_copy lib src_loc src_name dst_loc dst_name ensure = Inr (g, d)"
  obtains src where "map_of src_loc src_name = Some (Dataset src)"
    and "map_of dst_loc (name_or dst_name src_name) = None"
    and "g = dst_loc @ [(name_or dst_name src_name, Dataset d)]"
    and "(\<not> ensure \<or> is_properly_compressed src = Inr True) \<and> d = src
         \<or> ensure \<and> is_properly_compressed src = Inr False
           \<and> (\<exists>chks. plan_chunks (shape src) (chunks src) = Inr chks
                 \<and> create_accepts lib (shape src) (dtype src) chks
                 \<and> d = reencoded lib src chks)"
proof -
  from ok obtain src where src: "map_of src_loc src_name = Some (Dataset src)"
  proof (cases "map_of src_loc src_name")
    case None
    with ok show ?thesis by (simp add: h5ds_copy_not_found)
  next
    case (Some obj)
    with ok that show ?thesis by (cases obj) (simp_all add: h5ds_copy_group)
  qed
  show ?thesis
  proof (cases "\<not> ensure \<or> is_properly_compressed src = Inr True")
    case True
    note eq = h5ds_copy_verbatim_eq [OF src True, of lib dst_loc dst_name]
    show ?thesis
    proof (cases "map_of dst_loc (name_or dst_name src_name)")
      case None
      with ok eq have "g = dst_loc @ [(name_or dst_name src_name, Dataset d)]" and "d = src"
        by auto
      with src True None that show ?thesis by blast
    next
      case (Some obj)
      with ok eq show ?thesis by simp
    qed
  next
    case False
    then have ens: "ensure" and nt: "is_properly_compressed src \<noteq> Inr True" by simp_all
    show ?thesis
    proof (cases "is_properly_compressed src")
      case (Inl e)
      with ok src ens show ?thesis by (simp add: h5ds_copy_error_eq)
    next
      case (Inr b)
      with nt have ipc: "is_properly_compressed src = Inr False" by (cases b) simp_all
      note eq = h5ds_copy_reencode_eq [OF src ipc, of lib dst_loc dst_name]
      show ?thesis
      proof (cases "plan_chunks (shape src) (chunks src)")
        case (Inl e)
        with ok ens eq show ?thesis by simp
      next
        case plan: (Inr chks)
        show ?thesis
        proof (cases "create_dataset lib dst_loc (name_or dst_name src_name) (shape src)
                        (dtype src) chks True compression_kwargs")
          case (Inl e)
          with ok ens eq plan show ?thesis by simp
        next
          case created: (Inr created)
          from create_dataset_InrD [OF created]
          have acc: "create_accepts lib (shape src) (dtype src) chks"
            and free: "map_of dst_loc (name_or dst_name src_name) = None"
            by simp_all
          from ok ens eq plan created
          have "g = dst_loc @ [(name_or dst_name src_name, Dataset d)]"
            and "d = reencoded lib src chks"
            by auto
          with src ens ipc plan acc free that show ?thesis by blast
        qed
      qed
    qed
  qed
qed

lemma h5ds_copy_copyable:
  assumes src: "map_of src_loc src_name = Some (Dataset src)"
    and free: "map_of dst_loc (name_or dst_name src_name) = None"
    and able: "copyable lib src"
  shows "\<exists>d. h5ds_copy lib src_loc src_name dst_loc dst_name True =
               Inr (dst_loc @ [(name_or dst_name src_name, Dataset d)], d)"
proof (cases "is_properly_compressed src")
  case (Inl e)
  with able show ?thesis by (simp add: copyable_def)
next
  case (Inr b)
  show ?thesis
  proof (cases b)
    case True
    with Inr h5ds_copy_verbatim [OF src free, of True lib] show ?thesis by simp
  next
    case False
    with Inr have ipc: "is_properly_compressed src = Inr False" by simp
    with able obtain chks where plan: "plan_chunks (shape src) (chunks src) = Inr chks"
      and acc: "create_accepts lib (shape src) (dtype src) chks"
      by (auto simp: copyable_def split: sum.splits)
    from h5ds_copy_reencode [OF src free ipc plan acc] show ?thesis by blast
  qed
qed

lemma h5ds_copy_returns_copyable:
  assumes ok: "h5ds_copy lib src_loc src_name dst_loc dst_name True = Inr (g, d)"
    and src: "map_of src_loc src_name = Some (Dataset src)"
  shows "copyable lib src"
proof -
  from ok obtain src' where src': "map_of src_loc src_name = Some (Dataset src')"
    and paths: "(\<not> True \<or> is_properly_compressed src' = Inr True) \<and> d = src'
         \<or> True \<and> is_properly_compressed src' = Inr False
           \<and> (\<exists>chks. plan_chunks (shape src') (chunks src') = Inr chks
                 \<and> create_accepts lib (shape src') (dtype src') chks
                 \<and> d = reencoded lib src' chks)"
    by (rule h5ds_copy_InrE)
  from src src' have same: "src' = src" by simp
  from paths show ?thesis
    unfolding same by (auto simp: copyable_def)
qed

section \<open>Properties of the dataset copy\<close>

lemma wf_short5: "wf_dataset (short5\<lparr>filters := flt\<rparr>)"
  by (simp add: wf_dataset_def short5_def)

lemma wf_zstd7: "wf_dataset (zstd7\<lparr>filters := flt\<rparr>)"
  by (simp add: wf_dataset_def zstd7_def)

lemma wf_session_log: "wf_dataset session_log"
  by (simp add: wf_dataset_def session_log_def)

lemma wf_monitor_table: "wf_dataset monitor_table"
  by (simp add: wf_dataset_def monitor_table_def)

lemma wf_no_events: "wf_dataset (no_events\<lparr>chunks := Some [10]\<rparr>)"
  by (simp add: wf_dataset_def no_events_def)




lemma wf_no_events_unchunked: "wf_dataset no_events"
  by (simp add: wf_dataset_def no_events_def)

lemma no_events_copy:
  assumes "map_of g ''deform'' = Some (Dataset no_events)"
  shows "h5ds_copy small_library g ''deform'' [] None True =
           Inr ([(''deform'',
                  Dataset (no_events\<lparr>chunks := Some [1024], filters := [(32015, [5])],
                                      fletcher32 := True\<rparr>))],
                no_events\<lparr>chunks := Some [1024], filters := [(32015, [5])],
                          fletcher32 := True\<rparr>)"
proof -
  have ipc: "is_properly_compressed no_events = Inr False"
    by (simp add: is_properly_compressed_def get_filter_by_id_def no_events_def)
  have plan: "plan_chunks (shape no_events) (chunks no_events) = Inr None"
    by (simp add: plan_chunks_def no_events_def)
  have guess: "guess_chunk small_library (shape no_events) (dtype no_events) = [1024]"
    by (simp add: small_library_def no_events_def)
  have acc: "create_accepts small_library (shape no_events) (dtype no_events) None"
    by (simp add: create_accepts_def guess) (simp add: no_events_def)
  have enc: "reencoded small_library no_events None =
      no_events\<lparr>chunks := Some [1024], filters := [(32015, [5])], fletcher32 := True\<rparr>"
    using reencoded_wf [OF wf_no_events_unchunked plan, of small_library]
    by (simp add: compression_kwargs_def zstd_filter_id_def guess)
  from h5ds_copy_reencode [OF assms _ ipc plan acc, of "[]" None] enc
  show ?thesis by (simp add: name_or_def)
qed

text \<open>
  On the re-encoding path a source without a chunk shape is stored with the chunk shape
  that the store picks. With the guess of h5py for an empty axis, 1024, the empty array
  \<open>no_events\<close> is stored with chunk length 1024 along an axis of extent 0.
\<close>

lemma empty_unchunked_copy:
  "h5ds_copy small_library [(''deform'', Dataset no_events)] ''deform'' [] None True =
     Inr ([(''deform'',
            Dataset (no_events\<lparr>chunks := Some [1024], filters := [(32015, [5])],
                                fletcher32 := True\<rparr>))],
          no_events\<lparr>chunks := Some [1024], filters := [(32015, [5])], fletcher32 := True\<rparr>)
   \<and> shape no_events = [0]
   \<and> \<not> chunks_fit (no_events\<lparr>chunks := Some [1024], filters := [(32015, [5])],
                                 fletcher32 := True\<rparr>)"
proof -
  have "h5ds_copy small_library [(''deform'', Dataset no_events)] ''deform'' [] None True =
     Inr ([(''deform'',
            Dataset (no_events\<lparr>chunks := Some [1024], filters := [(32015, [5])],
                                fletcher32 := True\<rparr>))],
          no_events\<lparr>chunks := Some [1024], filters := [(32015, [5])], fletcher32 := True\<rparr>)"
    by (rule no_events_copy) simp
  then show ?thesis by (simp add: chunks_fit_def no_events_def)
qed

text \<open>
  Claim C2 does not hold on the verbatim path. The array \<open>short5\<close> is properly
  compressed, so \<open>h5ds_copy\<close> copies it as it is, and the destination array has chunk
  length 10 along an axis of extent 5.
\<close>

theorem verbatim_copy_keeps_long_chunk:
  "h5ds_copy small_library [(''deform'', Dataset short5)] ''deform'' [] None True =
     Inr ([(''deform'', Dataset short5)], short5)
   \<and> chunks short5 = Some [10] \<and> shape short5 = [5] \<and> \<not> chunks_fit short5"
proof -
  have "is_properly_compressed short5 = Inr True"
    by (simp add: short5_def is_properly_compressed_def get_filter_by_id_def zstd_filter_id_def)
  then have "h5ds_copy small_library [(''deform'', Dataset short5)] ''deform'' [] None True =
     Inr ([(''deform'', Dataset short5)], short5)"
    by (simp add: h5ds_copy_verbatim name_or_def)
  moreover have "chunks short5 = Some [10]" "shape short5 = [5]" "\<not> chunks_fit short5"
    by (simp_all add: short5_def chunks_fit_def)
  ultimately show ?thesis by simp
qed

text \<open>
  Claim C2, amended. On the re-encoding path a source with a defined chunk shape yields
  a destination array that satisfies the chunk invariant, whatever the chunk length of
  the source along the first axis: the destination has a defined chunk shape that is at
  most \<open>shape[0]\<close> along the first axis (and positive and at most the extent along
  every axis, or the store would have refused it). A source without a chunk shape
  yields a destination whose chunk shape is picked by the store, and the copy engine
  adds nothing to that choice. On the verbatim path the destination array has the
  chunk shape and the shape of the source, unchanged.
\<close>

theorem h5ds_copy_chunks:
  assumes ok: "h5ds_copy lib src_loc src_name dst_loc dst_name ensure = Inr (g, dst)"
    and src: "map_of src_loc src_name = Some (Dataset src)"
  shows "(ensure \<and> is_properly_compressed src = Inr False \<longrightarrow>
            (\<forall>cs. chunks src = Some cs \<longrightarrow>
               chunks_fit dst
               \<and> (\<exists>ds. chunks dst = Some ds
                     \<and> list_all2 (\<lambda>c n. 0 < c \<and> c \<le> n) ds (shape dst)))
            \<and> (chunks src = None \<longrightarrow>
                 chunks dst = Some (guess_chunk lib (shape src) (dtype src))))
       \<and> (\<not> ensure \<or> is_properly_compressed src = Inr True \<longrightarrow>
            chunks dst = chunks src \<and> shape dst = shape src)"
proof -
  from ok obtain src' where src': "map_of src_loc src_name = Some (Dataset src')"
    and paths: "(\<not> ensure \<or> is_properly_compressed src' = Inr True) \<and> dst = src'
         \<or> ensure \<and> is_properly_compressed src' = Inr False
           \<and> (\<exists>chks. plan_chunks (shape src') (chunks src') = Inr chks
                 \<and> create_accepts lib (shape src') (dtype src') chks
                 \<and> dst = reencoded lib src' chks)"
    by (rule h5ds_copy_InrE)
  from src src' have same: "src' = src" by simp
  have verbatim: "chunks dst = chunks src \<and> shape dst = shape src"
    if "\<not> ensure \<or> is_properly_compressed src = Inr True"
    using paths that unfolding same by auto
  have reenc: "\<exists>chks. plan_chunks (shape src) (chunks src) = Inr chks
                 \<and> create_accepts lib (shape src) (dtype src) chks
                 \<and> dst = reencoded lib src chks"
    if "ensure \<and> is_properly_compressed src = Inr False"
    using paths that unfolding same by auto
  have chunked: "chunks_fit dst
               \<and> (\<exists>ds. chunks dst = Some ds
                     \<and> list_all2 (\<lambda>c n. 0 < c \<and> c \<le> n) ds (shape dst))"
    if enc: "ensure \<and> is_properly_compressed src = Inr False" and cs: "chunks src = Some cs"
    for cs
  proof -
    from reenc [OF enc] obtain chks
      where plan: "plan_chunks (shape src) (chunks src) = Inr chks"
        and acc: "create_accepts lib (shape src) (dtype src) chks"
        and dst: "dst = reencoded lib src chks"
      by blast
    from create_accepts_planned [OF plan [unfolded cs] acc] obtain ps
      where ps: "chks = Some ps"
        and fit: "list_all2 (\<lambda>c n. 0 < c \<and> c \<le> n) ps (shape src)"
      by blast
    have c: "chunks dst = Some ps" and s: "shape dst = shape src"
      unfolding dst ps by (simp_all add: reencoded_def)
    from fit have "chunks_fit dst"
      unfolding chunks_fit_def c s
      by (cases ps; cases "shape src") simp_all
    with c s fit show ?thesis by simp
  qed
  have unchunked: "chunks dst = Some (guess_chunk lib (shape src) (dtype src))"
    if enc: "ensure \<and> is_properly_compressed src = Inr False" and none: "chunks src = None"
  proof -
    from reenc [OF enc] obtain chks
      where plan: "plan_chunks (shape src) (chunks src) = Inr chks"
        and dst: "dst = reencoded lib src chks"
      by blast
    from plan none have "chks = None" by (simp add: plan_chunks_def)
    then show ?thesis unfolding dst by (simp add: reencoded_def)
  qed
  show ?thesis
    using verbatim chunked unchunked by blast
qed

theorem h5ds_copy_chunks_witness:
  "h5ds_copy small_library [(''deform'', Dataset (short5\<lparr>filters := []\<rparr>))] ''deform'' [] None
     True =
     Inr ([(''deform'',
            Dataset (short5\<lparr>chunks := Some [5], filters := [(32015, [5])], fletcher32 := True\<rparr>))],
          short5\<lparr>chunks := Some [5], filters := [(32015, [5])], fletcher32 := True\<rparr>)
   \<and> chunks_fit (short5\<lparr>chunks := Some [5], filters := [(32015, [5])], fletcher32 := True\<rparr>)
   \<and> h5ds_copy small_library [(''session'', Dataset session_log)] ''session'' [] None True =
     Inr ([(''session'',
            Dataset (session_log\<lparr>chunks := Some [2], filters := [(32015, [5])],
                                  fletcher32 := True\<rparr>))],
          session_log\<lparr>chunks := Some [2], filters := [(32015, [5])], fletcher32 := True\<rparr>)
   \<and> guess_chunk small_library (shape session_log) (dtype session_log) = [2]
   \<and> h5ds_copy small_library [(''deform'', Dataset short5)] ''deform'' [] None False =
     Inr ([(''deform'', Dataset short5)], short5)
   \<and> chunks short5 = Some [10] \<and> shape short5 = [5]"
proof -
  let ?src = "short5\<lparr>filters := []\<rparr>"
  let ?dst = "short5\<lparr>chunks := Some [5], filters := [(32015, [5])], fletcher32 := True\<rparr>"
  let ?log = "session_log\<lparr>chunks := Some [2], filters := [(32015, [5])], fletcher32 := True\<rparr>"
  have ipc: "is_properly_compressed ?src = Inr False"
    by (simp add: is_properly_compressed_def get_filter_by_id_def)
  have plan: "plan_chunks (shape ?src) (chunks ?src) = Inr (Some [5])"
    by (simp add: plan_chunks_def short5_def)
  have acc: "create_accepts small_library (shape ?src) (dtype ?src) (Some [5])"
    by (simp add: create_accepts_def short5_def)
  have "reencoded small_library ?src (Some [5]) = ?dst"
    using reencoded_wf [OF wf_short5 plan]
    by (simp add: compression_kwargs_def zstd_filter_id_def)
  with h5ds_copy_reencode [of "[(''deform'', Dataset ?src)]" "''deform''" ?src "[]" None
      "Some [5]" small_library, OF _ _ ipc plan acc]
  have eq: "h5ds_copy small_library [(''deform'', Dataset ?src)] ''deform'' [] None True =
     Inr ([(''deform'', Dataset ?dst)], ?dst)"
    by (simp add: name_or_def)
  from h5ds_copy_chunks [OF eq] ipc have fit: "chunks_fit ?dst"
    by (simp add: short5_def)
  have ipc_log: "is_properly_compressed session_log = Inr False"
    by (simp add: is_properly_compressed_def get_filter_by_id_def session_log_def)
  have plan_log: "plan_chunks (shape session_log) (chunks session_log) = Inr None"
    by (simp add: plan_chunks_def session_log_def)
  have guess: "guess_chunk small_library (shape session_log) (dtype session_log) = [2]"
    by (simp add: small_library_def session_log_def)
  have acc_log: "create_accepts small_library (shape session_log) (dtype session_log) None"
    by (simp add: create_accepts_def guess) (simp add: session_log_def)
  have "reencoded small_library session_log None = ?log"
    using reencoded_wf [OF wf_session_log plan_log, of small_library]
    by (simp add: compression_kwargs_def zstd_filter_id_def guess)
  with h5ds_copy_reencode [of "[(''session'', Dataset session_log)]" "''session''"
      session_log "[]" None None small_library, OF _ _ ipc_log plan_log acc_log]
  have eq_log: "h5ds_copy small_library [(''session'', Dataset session_log)] ''session'' []
      None True = Inr ([(''session'', Dataset ?log)], ?log)"
    by (simp add: name_or_def)
  from h5ds_copy_chunks [OF eq_log] ipc_log
  have "chunks ?log = Some (guess_chunk small_library (shape session_log) (dtype session_log))"
    by (simp add: session_log_def)
  then have picked: "guess_chunk small_library (shape session_log) (dtype session_log) = [2]"
    by simp
  have eq_v: "h5ds_copy small_library [(''deform'', Dataset short5)] ''deform'' [] None False =
     Inr ([(''deform'', Dataset short5)], short5)"
    by (simp add: h5ds_copy_verbatim name_or_def)
  from h5ds_copy_chunks [OF eq_v]
  have kept: "chunks short5 = chunks short5 \<and> shape short5 = shape short5"
    by simp
  have vals: "chunks short5 = Some [10]" "shape short5 = [5]"
    by (simp_all add: short5_def)
  from eq fit eq_log picked eq_v vals show ?thesis by simp
qed

section \<open>Properties of the summary statistics\<close>

lemma apply_ufunc_attrs [simp]:
  "apply_ufunc ufunc (d\<lparr>attrs := a\<rparr>) = apply_ufunc ufunc d"
  by (simp add: apply_ufunc_def)

lemma complement_stats_fields:
  "complement_stats us d = Inr d' \<Longrightarrow> d' = d\<lparr>attrs := attrs d'\<rparr>"
proof (induction us arbitrary: d)
  case Nil
  then show ?case by simp
next
  case (Cons p us)
  obtain ufunc attr where p: "p = (ufunc, attr)" by (cases p)
  show ?case
  proof (cases "map_of (attrs d) attr = None")
    case True
    with Cons.prems p obtain v where v: "apply_ufunc ufunc d = Inr v"
      and rest: "complement_stats us (d\<lparr>attrs := AList.update attr (AttrNum v) (attrs d)\<rparr>) = Inr d'"
      by (auto split: sum.splits)
    from Cons.IH [OF rest] show ?thesis by simp
  next
    case False
    with Cons.prems p have "complement_stats us d = Inr d'" by simp
    then show ?thesis by (rule Cons.IH)
  qed
qed

lemma complement_stats_kept:
  "complement_stats us d = Inr d' \<Longrightarrow> map_of (attrs d) a = Some v \<Longrightarrow>
   map_of (attrs d') a = Some v"
proof (induction us arbitrary: d)
  case Nil
  then show ?case by simp
next
  case (Cons p us)
  obtain ufunc attr where p: "p = (ufunc, attr)" by (cases p)
  show ?case
  proof (cases "map_of (attrs d) attr = None")
    case True
    with Cons.prems p obtain x where
      rest: "complement_stats us (d\<lparr>attrs := AList.update attr (AttrNum x) (attrs d)\<rparr>) = Inr d'"
      by (auto split: sum.splits)
    from True Cons.prems(2) have "a \<noteq> attr" by auto
    with Cons.prems(2)
    have "map_of (attrs (d\<lparr>attrs := AList.update attr (AttrNum x) (attrs d)\<rparr>)) a = Some v"
      by (simp add: update_conv')
    with rest show ?thesis by (rule Cons.IH)
  next
    case False
    with Cons.prems p have "complement_stats us d = Inr d'" by simp
    with Cons.prems(2) show ?thesis using Cons.IH by blast
  qed
qed

lemma complement_stats_present:
  "complement_stats us d = Inr d' \<Longrightarrow> (ufunc, attr) \<in> set us \<Longrightarrow>
   map_of (attrs d') attr \<noteq> None"
proof (induction us arbitrary: d)
  case Nil
  then show ?case by simp
next
  case (Cons p us)
  obtain u b where p: "p = (u, b)" by (cases p)
  show ?case
  proof (cases "map_of (attrs d) b = None")
    case True
    with Cons.prems p obtain x where
      rest: "complement_stats us (d\<lparr>attrs := AList.update b (AttrNum x) (attrs d)\<rparr>) = Inr d'"
      by (auto split: sum.splits)
    show ?thesis
    proof (cases "attr = b")
      case True
      have "map_of (attrs (d\<lparr>attrs := AList.update b (AttrNum x) (attrs d)\<rparr>)) b = Some (AttrNum x)"
        by (simp add: update_conv')
      from complement_stats_kept [OF rest this] True show ?thesis by simp
    next
      case False
      with Cons.prems(2) p have "(ufunc, attr) \<in> set us" by simp
      with rest show ?thesis by (rule Cons.IH)
    qed
  next
    case False
    with Cons.prems p have rest: "complement_stats us d = Inr d'" by simp
    show ?thesis
    proof (cases "attr = b")
      case True
      from False obtain v where "map_of (attrs d) b = Some v" by auto
      from complement_stats_kept [OF rest this] True show ?thesis by simp
    next
      case False
      with Cons.prems(2) p have "(ufunc, attr) \<in> set us" by simp
      with rest show ?thesis by (rule Cons.IH)
    qed
  qed
qed

lemma complement_stats_noop:
  "\<forall>(ufunc, attr) \<in> set us. map_of (attrs d) attr \<noteq> None \<Longrightarrow> complement_stats us d = Inr d"
  by (induction us) auto

text \<open>
  Claim C8. The annotation is idempotent: after a first run over a dataset, a second
  run returns the dataset of the first run unchanged, since every one of \<open>min\<close>,
  \<open>max\<close> and \<open>mean\<close> is then present and is attached only when absent. An attribute
  that the dataset had before the first run keeps its value.
\<close>

theorem complement_stats_idempotent:
  assumes first: "complement_stats (stat_ufuncs lib) d = Inr d'"
  shows "complement_stats (stat_ufuncs lib) d' = Inr d'
       \<and> (\<forall>a v. map_of (attrs d) a = Some v \<longrightarrow> map_of (attrs d') a = Some v)"
proof
  have "\<forall>(ufunc, attr) \<in> set (stat_ufuncs lib). map_of (attrs d') attr \<noteq> None"
    using complement_stats_present [OF first] by blast
  then show "complement_stats (stat_ufuncs lib) d' = Inr d'"
    by (rule complement_stats_noop)
next
  show "\<forall>a v. map_of (attrs d) a = Some v \<longrightarrow> map_of (attrs d') a = Some v"
    using complement_stats_kept [OF first] by blast
qed

theorem complement_stats_idempotent_witness:
  "complement_stats (stat_ufuncs small_library) zstd7 = Inr zstd7_stats
   \<and> complement_stats (stat_ufuncs small_library) zstd7_stats = Inr zstd7_stats"
proof -
  have first: "complement_stats (stat_ufuncs small_library) zstd7 = Inr zstd7_stats"
    by (simp add: stat_ufuncs_def zstd7_def zstd7_stats_def apply_ufunc_def nanmin_def nanmax_def
        nanmean_def not_nan_def fv_min_def fv_max_def small_library_def)
  from complement_stats_idempotent [OF first] first show ?thesis by simp
qed







lemma nanmin_all_nan: "a \<noteq> [] \<Longrightarrow> filter not_nan a = [] \<Longrightarrow> nanmin a = Inr NaN"
  by (simp add: nanmin_def)



lemma nanmin_empty: "\<exists>msg. nanmin [] = Inl (ValueError msg)"
  by (simp add: nanmin_def)

lemma nanmax_empty: "\<exists>msg. nanmax [] = Inl (ValueError msg)"
  by (simp add: nanmax_def)

section \<open>Properties of the container copy\<close>

lemma name_or_prefix: "name_or (Some (meta_prefix @ key)) key = meta_prefix @ key"
  by (simp add: name_or_def)

lemma name_or_None: "name_or None key = key"
  by (simp add: name_or_def)

lemma reencoded_same_array:
  "wf_dataset src \<Longrightarrow> plan_chunks (shape src) (chunks src) = Inr chks \<Longrightarrow>
   same_array src (reencoded lib src chks)"
  by (simp add: reencoded_wf same_array_def)

lemma h5ds_copy_same_array:
  assumes ok: "h5ds_copy lib src_loc src_name dst_loc dst_name ensure = Inr (g, d)"
    and src: "map_of src_loc src_name = Some (Dataset src)"
    and wf: "wf_dataset src"
  shows "same_array src d"
proof -
  from ok obtain src' where src': "map_of src_loc src_name = Some (Dataset src')"
    and paths: "(\<not> ensure \<or> is_properly_compressed src' = Inr True) \<and> d = src'
         \<or> ensure \<and> is_properly_compressed src' = Inr False
           \<and> (\<exists>chks. plan_chunks (shape src') (chunks src') = Inr chks
                 \<and> create_accepts lib (shape src') (dtype src') chks
                 \<and> d = reencoded lib src' chks)"
    by (rule h5ds_copy_InrE)
  from src src' have same: "src' = src" by simp
  from paths have "d = src
      \<or> (\<exists>chks. plan_chunks (shape src) (chunks src) = Inr chks \<and> d = reencoded lib src chks)"
    unfolding same by blast
  then show ?thesis
  proof (elim disjE conjE exE)
    assume "d = src"
    then show ?thesis by (simp add: same_array_def)
  next
    fix chks
    assume "plan_chunks (shape src) (chunks src) = Inr chks" and "d = reencoded lib src chks"
    with wf show ?thesis by (simp add: reencoded_same_array)
  qed
qed

lemma map_of_append_fresh:
  "map_of g n = None \<Longrightarrow> map_of (g @ [(n, v)]) n = Some v"
  by (simp add: map_add_def)

lemma map_of_append_kept:
  "map_of g k = Some v \<Longrightarrow> map_of (g @ ys) k = Some v"
  by (simp add: map_add_def split: option.splits)

lemma fst_set_append_one: "fst ` set (g @ [(n, v)]) = insert n (fst ` set g)"
  by auto

subsection \<open>The loop over logs and tables\<close>

lemma copy_entries_append:
  "copy_entries lib src_loc meta_prefix (ks @ ks') dst_loc =
     (case copy_entries lib src_loc meta_prefix ks dst_loc of
        Inl err \<Rightarrow> Inl err
      | Inr dst_loc' \<Rightarrow> copy_entries lib src_loc meta_prefix ks' dst_loc')"
  by (induction ks arbitrary: dst_loc) (auto split: sum.splits)

lemma copy_entries_group:
  "map_of src_loc key = Some (Group members) \<Longrightarrow>
   copy_entries lib src_loc meta_prefix (key # keys) dst_loc =
     Inl (ValueError (not_a_dataset key), dst_loc)"
  by (simp add: h5ds_copy_group)

lemma copy_entries_kept:
  "copy_entries lib src_loc meta_prefix keys dst_loc = Inr dst_loc' \<Longrightarrow>
   map_of dst_loc n = Some v \<Longrightarrow> map_of dst_loc' n = Some v"
proof (induction keys arbitrary: dst_loc)
  case Nil
  then show ?case by simp
next
  case (Cons key keys)
  from Cons.prems(1) obtain g d
    where step: "h5ds_copy lib src_loc key dst_loc (Some (meta_prefix @ key)) True = Inr (g, d)"
      and rest: "copy_entries lib src_loc meta_prefix keys g = Inr dst_loc'"
    by (auto split: sum.splits)
  from step have "g = dst_loc @ [(meta_prefix @ key, Dataset d)]"
    by (rule h5ds_copy_InrE) (simp add: name_or_prefix)
  with Cons.prems(2) have "map_of g n = Some v" by (simp add: map_of_append_kept)
  with rest show ?case by (rule Cons.IH)
qed

lemma copy_entries_copied:
  "copy_entries lib src_loc meta_prefix keys dst_loc = Inr dst_loc' \<Longrightarrow> key \<in> set keys \<Longrightarrow>
   map_of src_loc key = Some (Dataset src) \<Longrightarrow> wf_dataset src \<Longrightarrow>
   \<exists>d. map_of dst_loc' (meta_prefix @ key) = Some (Dataset d) \<and> same_array src d"
proof (induction keys arbitrary: dst_loc)
  case Nil
  then show ?case by simp
next
  case (Cons k keys)
  from Cons.prems(1) obtain g d
    where step: "h5ds_copy lib src_loc k dst_loc (Some (meta_prefix @ k)) True = Inr (g, d)"
      and rest: "copy_entries lib src_loc meta_prefix keys g = Inr dst_loc'"
    by (auto split: sum.splits)
  show ?case
  proof (cases "key = k")
    case True
    from step have g: "g = dst_loc @ [(meta_prefix @ k, Dataset d)]"
      and free: "map_of dst_loc (meta_prefix @ k) = None"
      by (rule h5ds_copy_InrE, simp add: name_or_prefix)+
    have "map_of g (meta_prefix @ k) = Some (Dataset d)"
      unfolding g using free by (rule map_of_append_fresh)
    from copy_entries_kept [OF rest this] have "map_of dst_loc' (meta_prefix @ k) = Some (Dataset d)" .
    moreover have "same_array src d"
      using h5ds_copy_same_array [OF step] Cons.prems(3,4) True by simp
    ultimately show ?thesis using True by blast
  next
    case False
    with Cons.prems(2) have "key \<in> set keys" by simp
    from Cons.IH [OF rest this Cons.prems(3,4)] show ?thesis .
  qed
qed

lemma copy_entries_names:
  "copy_entries lib src_loc meta_prefix keys dst_loc = Inr dst_loc' \<Longrightarrow>
   fst ` set dst_loc' = fst ` set dst_loc \<union> (\<lambda>key. meta_prefix @ key) ` set keys"
proof (induction keys arbitrary: dst_loc)
  case Nil
  then show ?case by simp
next
  case (Cons k keys)
  from Cons.prems(1) obtain g d
    where step: "h5ds_copy lib src_loc k dst_loc (Some (meta_prefix @ k)) True = Inr (g, d)"
      and rest: "copy_entries lib src_loc meta_prefix keys g = Inr dst_loc'"
    by (auto split: sum.splits)
  from step have g: "g = dst_loc @ [(meta_prefix @ k, Dataset d)]"
    by (rule h5ds_copy_InrE) (simp add: name_or_prefix)
  from Cons.IH [OF rest] show ?case
    unfolding g fst_set_append_one by auto
qed

lemma copy_entries_returns:
  assumes "distinct keys"
    and "\<forall>key \<in> set keys. map_of dst_loc (meta_prefix @ key) = None
           \<and> (\<exists>d. map_of src_loc key = Some (Dataset d) \<and> copyable lib d)"
  shows "\<exists>dst_loc'. copy_entries lib src_loc meta_prefix keys dst_loc = Inr dst_loc'"
  using assms
proof (induction keys arbitrary: dst_loc)
  case Nil
  then show ?case by simp
next
  case (Cons k keys)
  from Cons.prems(2) obtain d where free: "map_of dst_loc (meta_prefix @ k) = None"
    and src: "map_of src_loc k = Some (Dataset d)" and able: "copyable lib d"
    by auto
  from h5ds_copy_copyable [OF src _ able, of dst_loc "Some (meta_prefix @ k)"] free
  obtain d' where step: "h5ds_copy lib src_loc k dst_loc (Some (meta_prefix @ k)) True =
      Inr (dst_loc @ [(meta_prefix @ k, Dataset d')], d')"
    by (auto simp: name_or_prefix)
  have "\<forall>key \<in> set keys.
          map_of (dst_loc @ [(meta_prefix @ k, Dataset d')]) (meta_prefix @ key) = None
          \<and> (\<exists>d. map_of src_loc key = Some (Dataset d) \<and> copyable lib d)"
  proof
    fix key
    assume mem: "key \<in> set keys"
    with Cons.prems(1) have "key \<noteq> k" by auto
    moreover from Cons.prems(2) mem have "map_of dst_loc (meta_prefix @ key) = None"
      and "\<exists>d. map_of src_loc key = Some (Dataset d) \<and> copyable lib d"
      by simp_all
    ultimately show "map_of (dst_loc @ [(meta_prefix @ k, Dataset d')]) (meta_prefix @ key) = None
          \<and> (\<exists>d. map_of src_loc key = Some (Dataset d) \<and> copyable lib d)"
      by (simp add: map_add_def)
  qed
  with Cons.prems(1) Cons.IH [of "dst_loc @ [(meta_prefix @ k, Dataset d')]"]
  obtain dst_loc' where
    "copy_entries lib src_loc meta_prefix keys (dst_loc @ [(meta_prefix @ k, Dataset d')]) =
       Inr dst_loc'"
    by auto
  with step show ?case by simp
qed

subsection \<open>The loop over features\<close>

lemma update_appended:
  "map_of g k = None \<Longrightarrow> AList.update k v' (g @ [(k, v)]) = g @ [(k, v')]"
  by (induction g) (auto split: if_splits)

lemma copy_features_append:
  "copy_features lib fe sfe so src_loc (ks @ ks') dst_loc =
     (case copy_features lib fe sfe so src_loc ks dst_loc of
        Inl err \<Rightarrow> Inl err
      | Inr dst_loc' \<Rightarrow> copy_features lib fe sfe so src_loc ks' dst_loc')"
  by (induction ks arbitrary: dst_loc) (auto split: sum.splits)

lemma copy_features_skip:
  "\<not> fe feat so \<Longrightarrow>
   copy_features lib fe sfe so src_loc (feat # feats) dst_loc =
     copy_features lib fe sfe so src_loc feats dst_loc"
  by simp

lemma copy_features_group:
  "fe feat so \<Longrightarrow> map_of src_loc feat = Some (Group members) \<Longrightarrow>
   copy_features lib fe sfe so src_loc (feat # feats) dst_loc =
     Inl (ValueError (not_a_dataset feat), dst_loc)"
  by (simp add: h5ds_copy_group)

lemma copy_features_step:
  assumes ok: "copy_features lib fe sfe so src_loc (feat # feats) dst_loc = Inr dst_loc'"
    and sel: "fe feat so"
  obtains src d d' where "map_of src_loc feat = Some (Dataset src)"
    and "map_of dst_loc feat = None"
    and "h5ds_copy lib src_loc feat dst_loc None True = Inr (dst_loc @ [(feat, Dataset d)], d)"
    and "if sfe feat then complement_stats (stat_ufuncs lib) d = Inr d' else d' = d"
    and "copy_features lib fe sfe so src_loc feats (dst_loc @ [(feat, Dataset d')]) = Inr dst_loc'"
proof -
  from ok sel obtain g d where step: "h5ds_copy lib src_loc feat dst_loc None True = Inr (g, d)"
    by (auto split: sum.splits)
  from step obtain src where src: "map_of src_loc feat = Some (Dataset src)"
    and free: "map_of dst_loc feat = None"
    and g: "g = dst_loc @ [(feat, Dataset d)]"
    by (rule h5ds_copy_InrE) (simp add: name_or_None)
  show ?thesis
  proof (cases "sfe feat")
    case True
    with ok sel step obtain d' where st: "complement_stats (stat_ufuncs lib) d = Inr d'"
      and rest: "copy_features lib fe sfe so src_loc feats (AList.update feat (Dataset d') g) = Inr dst_loc'"
      by (auto split: sum.splits)
    from rest have "copy_features lib fe sfe so src_loc feats (dst_loc @ [(feat, Dataset d')]) = Inr dst_loc'"
      unfolding g by (simp add: update_appended [OF free])
    with that [OF src free] step g st True show ?thesis by simp
  next
    case False
    with ok sel step have "copy_features lib fe sfe so src_loc feats g = Inr dst_loc'"
      by simp
    with that [OF src free, of d d] step g False show ?thesis by simp
  qed
qed

lemma copy_features_kept:
  "copy_features lib fe sfe so src_loc feats dst_loc = Inr dst_loc' \<Longrightarrow>
   map_of dst_loc n = Some v \<Longrightarrow> map_of dst_loc' n = Some v"
proof (induction feats arbitrary: dst_loc)
  case Nil
  then show ?case by simp
next
  case (Cons feat feats)
  show ?case
  proof (cases "fe feat so")
    case True
    from Cons.prems(1) True obtain d' where
      rest: "copy_features lib fe sfe so src_loc feats (dst_loc @ [(feat, Dataset d')]) = Inr dst_loc'"
      by (rule copy_features_step)
    from Cons.prems(2) have "map_of (dst_loc @ [(feat, Dataset d')]) n = Some v"
      by (rule map_of_append_kept)
    with rest show ?thesis by (rule Cons.IH)
  next
    case False
    with Cons.prems(1) have "copy_features lib fe sfe so src_loc feats dst_loc = Inr dst_loc'"
      by simp
    from Cons.IH [OF this Cons.prems(2)] show ?thesis .
  qed
qed

lemma copy_features_names:
  "copy_features lib fe sfe so src_loc feats dst_loc = Inr dst_loc' \<Longrightarrow>
   fst ` set dst_loc' = fst ` set dst_loc \<union> {feat \<in> set feats. fe feat so}"
proof (induction feats arbitrary: dst_loc)
  case Nil
  then show ?case by simp
next
  case (Cons feat feats)
  show ?case
  proof (cases "fe feat so")
    case True
    from Cons.prems True obtain d' where
      rest: "copy_features lib fe sfe so src_loc feats (dst_loc @ [(feat, Dataset d')]) = Inr dst_loc'"
      by (rule copy_features_step)
    from Cons.IH [OF rest] True show ?thesis
      unfolding fst_set_append_one by auto
  next
    case False
    with Cons.prems have "copy_features lib fe sfe so src_loc feats dst_loc = Inr dst_loc'"
      by simp
    from Cons.IH [OF this] False show ?thesis by auto
  qed
qed

lemma copy_features_copied:
  "copy_features lib fe sfe so src_loc feats dst_loc = Inr dst_loc' \<Longrightarrow> feat \<in> set feats \<Longrightarrow>
   fe feat so \<Longrightarrow> map_of src_loc feat = Some (Dataset src) \<Longrightarrow> wf_dataset src \<Longrightarrow>
   \<exists>d d'. same_array src d
      \<and> (if sfe feat then complement_stats (stat_ufuncs lib) d = Inr d' else d' = d)
      \<and> map_of dst_loc' feat = Some (Dataset d')"
proof (induction feats arbitrary: dst_loc)
  case Nil
  then show ?case by simp
next
  case (Cons f feats)
  show ?case
  proof (cases "feat = f")
    case True
    from Cons.prems(3) True have sel: "fe f so" by simp
    from Cons.prems(1) sel obtain d d' where
      step: "h5ds_copy lib src_loc f dst_loc None True = Inr (dst_loc @ [(f, Dataset d)], d)"
      and free: "map_of dst_loc f = None"
      and st: "if sfe f then complement_stats (stat_ufuncs lib) d = Inr d' else d' = d"
      and rest: "copy_features lib fe sfe so src_loc feats (dst_loc @ [(f, Dataset d')]) = Inr dst_loc'"
      by (rule copy_features_step)
    have "same_array src d"
      using h5ds_copy_same_array [OF step] Cons.prems(4,5) True by simp
    moreover have "map_of (dst_loc @ [(f, Dataset d')]) f = Some (Dataset d')"
      using free by (rule map_of_append_fresh)
    from copy_features_kept [OF rest this] have "map_of dst_loc' f = Some (Dataset d')" .
    ultimately show ?thesis using st True by blast
  next
    case False
    with Cons.prems(2) have mem: "feat \<in> set feats" by simp
    show ?thesis
    proof (cases "fe f so")
      case True
      from Cons.prems(1) True obtain d' where
        rest: "copy_features lib fe sfe so src_loc feats (dst_loc @ [(f, Dataset d')]) = Inr dst_loc'"
        by (rule copy_features_step)
      from Cons.IH [OF rest mem Cons.prems(3,4,5)] show ?thesis .
    next
      case False
      with Cons.prems(1) have "copy_features lib fe sfe so src_loc feats dst_loc = Inr dst_loc'"
        by simp
      from Cons.IH [OF this mem Cons.prems(3,4,5)] show ?thesis .
    qed
  qed
qed




subsection \<open>The sections of a file\<close>

lemma rtdc_copy_InrE:
  assumes "rtdc_copy lib fe sfe src dst feats il it pre = Inr dst'"
  obtains dst1 dst2 where "copy_logs lib src (copy_metadata src dst) il pre = Inr dst1"
    and "copy_tables lib src dst1 it pre = Inr dst2"
    and "copy_events lib fe sfe src dst2 feats = Inr dst'"
  using assms by (auto simp: rtdc_copy_def split: sum.splits)

lemma copy_metadata_sections:
  "logs (copy_metadata src dst) = logs dst" "tables (copy_metadata src dst) = tables dst"
  "events (copy_metadata src dst) = events dst"
  by (simp_all add: copy_metadata_def)

lemma copy_logs_skipped:
  "\<not> il \<or> logs src = None \<Longrightarrow> copy_logs lib src dst il pre = Inr dst"
  by (auto simp: copy_logs_def)

lemma copy_tables_skipped:
  "\<not> it \<or> tables src = None \<Longrightarrow> copy_tables lib src dst it pre = Inr dst"
  by (auto simp: copy_tables_def)

lemma copy_logs_InrE:
  assumes "copy_logs lib src dst il pre = Inr dst1"
  obtains "\<not> il \<or> logs src = None" and "dst1 = dst"
  | g g' where "il" and "logs src = Some g"
    and "copy_entries lib g pre (map fst g) (require_group (logs dst)) = Inr g'"
    and "dst1 = dst\<lparr>logs := Some g'\<rparr>"
  using assms by (auto simp: copy_logs_def split: if_splits option.splits sum.splits)

lemma copy_tables_InrE:
  assumes "copy_tables lib src dst it pre = Inr dst2"
  obtains "\<not> it \<or> tables src = None" and "dst2 = dst"
  | g g' where "it" and "tables src = Some g"
    and "copy_entries lib g pre (map fst g) (require_group (tables dst)) = Inr g'"
    and "dst2 = dst\<lparr>tables := Some g'\<rparr>"
  using assms by (auto simp: copy_tables_def split: if_splits option.splits sum.splits)

lemma copy_events_InrE:
  assumes "copy_events lib fe sfe src dst feats = Inr dst'"
  obtains "feats = FeaturesNone" and "dst' = dst"
  | g g' where "feats \<noteq> FeaturesNone" and "events src = Some g"
    and "copy_features lib fe sfe (feats = FeaturesScalar) g (map fst g) (require_group (events dst))
           = Inr g'"
    and "dst' = dst\<lparr>events := Some g'\<rparr>"
  using assms
  by (auto simp: copy_events_def Let_def split: if_splits option.splits sum.splits)

lemma copy_logs_sections:
  "copy_logs lib src dst il pre = Inr dst1 \<Longrightarrow>
   tables dst1 = tables dst \<and> events dst1 = events dst \<and> file_attrs dst1 = file_attrs dst"
  by (erule copy_logs_InrE) simp_all

lemma copy_tables_sections:
  "copy_tables lib src dst it pre = Inr dst2 \<Longrightarrow>
   logs dst2 = logs dst \<and> events dst2 = events dst \<and> file_attrs dst2 = file_attrs dst"
  by (erule copy_tables_InrE) simp_all

lemma copy_events_sections:
  "copy_events lib fe sfe src dst feats = Inr dst' \<Longrightarrow>
   logs dst' = logs dst \<and> tables dst' = tables dst \<and> file_attrs dst' = file_attrs dst"
  by (erule copy_events_InrE) simp_all

lemma map_of_key: "map_of g key = Some v \<Longrightarrow> key \<in> set (map fst g)"
  by (metis map_of_eq_None_iff option.distinct(1) set_map)

subsection \<open>Logs and tables\<close>

lemma session_log_copy:
  "h5ds_copy small_library [(''session'', Dataset session_log)] ''session'' dst_loc
     (Some ''exp1_session'') True =
     (if map_of dst_loc ''exp1_session'' = None
      then Inr (dst_loc @ [(''exp1_session'',
                  Dataset (session_log\<lparr>chunks := Some [2], filters := [(32015, [5])],
                                        fletcher32 := True\<rparr>))],
                session_log\<lparr>chunks := Some [2], filters := [(32015, [5])], fletcher32 := True\<rparr>)
      else Inl (NameExists ''exp1_session''))"
proof -
  have ipc: "is_properly_compressed session_log = Inr False"
    by (simp add: is_properly_compressed_def get_filter_by_id_def session_log_def)
  have plan: "plan_chunks (shape session_log) (chunks session_log) = Inr None"
    by (simp add: plan_chunks_def session_log_def)
  have guess: "guess_chunk small_library (shape session_log) (dtype session_log) = [2]"
    by (simp add: small_library_def session_log_def)
  have acc: "create_accepts small_library (shape session_log) (dtype session_log) None"
    by (simp add: create_accepts_def guess) (simp add: session_log_def)
  have enc: "reencoded small_library session_log None =
      session_log\<lparr>chunks := Some [2], filters := [(32015, [5])], fletcher32 := True\<rparr>"
    using reencoded_wf [OF wf_session_log plan, of small_library]
    by (simp add: compression_kwargs_def zstd_filter_id_def guess)
  have src: "map_of [(''session'', Dataset session_log)] ''session'' = Some (Dataset session_log)"
    by simp
  show ?thesis
  proof (cases "map_of dst_loc ''exp1_session'' = None")
    case True
    with h5ds_copy_reencode [OF src _ ipc plan acc, of dst_loc "Some ''exp1_session''"] enc
    show ?thesis by (simp add: name_or_def)
  next
    case False
    then have "create_dataset small_library dst_loc ''exp1_session'' (shape session_log)
                 (dtype session_log) None True compression_kwargs = Inl (NameExists ''exp1_session'')"
      using acc
      by (simp add: create_dataset_def create_accepts_def zero_chunk_iff compression_kwargs_def)
    with False plan show ?thesis
      unfolding h5ds_copy_reencode_eq [OF src ipc] by (simp add: name_or_def)
  qed
qed

lemma monitor_table_copy:
  "h5ds_copy small_library [(''monitor'', Dataset monitor_table)] ''monitor'' []
     (Some ''exp1_monitor'') True =
     Inr ([(''exp1_monitor'',
            Dataset (monitor_table\<lparr>filters := [(32015, [5])], fletcher32 := True\<rparr>))],
          monitor_table\<lparr>filters := [(32015, [5])], fletcher32 := True\<rparr>)"
proof -
  have ipc: "is_properly_compressed monitor_table = Inr False"
    by (simp add: is_properly_compressed_def get_filter_by_id_def monitor_table_def)
  have plan: "plan_chunks (shape monitor_table) (chunks monitor_table) = Inr (Some [2, 2])"
    by (simp add: plan_chunks_def monitor_table_def)
  have acc: "create_accepts small_library (shape monitor_table) (dtype monitor_table)
               (Some [2, 2])"
    by (simp add: create_accepts_def monitor_table_def)
  have enc: "reencoded small_library monitor_table (Some [2, 2]) =
      monitor_table\<lparr>filters := [(32015, [5])], fletcher32 := True\<rparr>"
    using reencoded_wf [OF wf_monitor_table plan, of small_library]
    by (simp add: compression_kwargs_def zstd_filter_id_def monitor_table_def)
  have src: "map_of [(''monitor'', Dataset monitor_table)] ''monitor'' =
      Some (Dataset monitor_table)"
    by simp
  from h5ds_copy_reencode [OF src _ ipc plan acc, of "[]" "Some ''exp1_monitor''"] enc
  show ?thesis by (simp add: name_or_def)
qed

lemma demo_copy_logs_tables:
  "rtdc_copy small_library fe sfe demo_file empty_file FeaturesNone True True ''exp1_'' =
     Inr \<lparr>file_attrs = [(''setup:channel width'', AttrNum (Fin 20))],
          logs = Some [(''exp1_session'',
                        Dataset (session_log\<lparr>chunks := Some [2], filters := [(32015, [5])],
                                              fletcher32 := True\<rparr>))],
          tables = Some [(''exp1_monitor'',
                          Dataset (monitor_table\<lparr>filters := [(32015, [5])],
                                                  fletcher32 := True\<rparr>))],
          events = None\<rparr>"
proof -
  have meta: "copy_metadata demo_file empty_file =
      \<lparr>file_attrs = [(''setup:channel width'', AttrNum (Fin 20))],
       logs = None, tables = None, events = None\<rparr>"
    by (simp add: copy_metadata_def demo_file_def empty_file_def)
  have l: "copy_logs small_library demo_file (copy_metadata demo_file empty_file) True ''exp1_'' =
      Inr \<lparr>file_attrs = [(''setup:channel width'', AttrNum (Fin 20))],
          logs = Some [(''exp1_session'',
                        Dataset (session_log\<lparr>chunks := Some [2], filters := [(32015, [5])],
                                              fletcher32 := True\<rparr>))],
          tables = None, events = None\<rparr>"
    unfolding meta
    by (simp add: copy_logs_def demo_file_def require_group_def session_log_copy)
  have t: "copy_tables small_library demo_file
       \<lparr>file_attrs = [(''setup:channel width'', AttrNum (Fin 20))],
          logs = Some [(''exp1_session'',
                        Dataset (session_log\<lparr>chunks := Some [2], filters := [(32015, [5])],
                                              fletcher32 := True\<rparr>))],
          tables = None, events = None\<rparr> True ''exp1_'' =
      Inr \<lparr>file_attrs = [(''setup:channel width'', AttrNum (Fin 20))],
          logs = Some [(''exp1_session'',
                        Dataset (session_log\<lparr>chunks := Some [2], filters := [(32015, [5])],
                                              fletcher32 := True\<rparr>))],
          tables = Some [(''exp1_monitor'',
                          Dataset (monitor_table\<lparr>filters := [(32015, [5])],
                                                  fletcher32 := True\<rparr>))],
          events = None\<rparr>"
    by (simp add: copy_tables_def demo_file_def require_group_def monitor_table_copy)
  show ?thesis
    unfolding rtdc_copy_def l by (simp add: t copy_events_def)
qed

lemma logs_tables_copied:
  assumes ok: "rtdc_copy lib fe sfe src dst feats il it pre = Inr dst'"
  shows "(il \<longrightarrow> (\<forall>g key d. logs src = Some g \<and> map_of g key = Some (Dataset d) \<and> wf_dataset d \<longrightarrow>
            (\<exists>g' d'. logs dst' = Some g' \<and> map_of g' (pre @ key) = Some (Dataset d')
               \<and> same_array d d'
               \<and> fst ` set g' = fst ` set (require_group (logs dst)) \<union> (\<lambda>k. pre @ k) ` fst ` set g)))
       \<and> (it \<longrightarrow> (\<forall>g key d. tables src = Some g \<and> map_of g key = Some (Dataset d) \<and> wf_dataset d \<longrightarrow>
            (\<exists>g' d'. tables dst' = Some g' \<and> map_of g' (pre @ key) = Some (Dataset d')
               \<and> same_array d d'
               \<and> fst ` set g' = fst ` set (require_group (tables dst)) \<union> (\<lambda>k. pre @ k) ` fst ` set g)))"
proof -
  from ok obtain dst1 dst2
    where l: "copy_logs lib src (copy_metadata src dst) il pre = Inr dst1"
      and t: "copy_tables lib src dst1 it pre = Inr dst2"
      and e: "copy_events lib fe sfe src dst2 feats = Inr dst'"
    by (rule rtdc_copy_InrE)
  have logs': "logs dst' = logs dst1"
    using copy_tables_sections [OF t] copy_events_sections [OF e] by simp
  have tables': "tables dst' = tables dst2"
    using copy_events_sections [OF e] by simp
  have tables1: "tables dst1 = tables dst"
    using copy_logs_sections [OF l] by (simp add: copy_metadata_sections)
  have part_logs: "\<exists>g' d'. logs dst' = Some g' \<and> map_of g' (pre @ key) = Some (Dataset d')
               \<and> same_array d d'
               \<and> fst ` set g' = fst ` set (require_group (logs dst)) \<union> (\<lambda>k. pre @ k) ` fst ` set g"
    if "il" and g: "logs src = Some g" and ent: "map_of g key = Some (Dataset d)"
      and wf: "wf_dataset d" for g key d
  proof -
    from l obtain g' where
      run: "copy_entries lib g pre (map fst g) (require_group (logs dst)) = Inr g'"
      and d1: "dst1 = copy_metadata src dst\<lparr>logs := Some g'\<rparr>"
    proof (cases rule: copy_logs_InrE)
      case 1
      with \<open>il\<close> g show ?thesis by simp
    next
      case (2 h h')
      with g that show ?thesis by (simp add: copy_metadata_sections)
    qed
    from copy_entries_copied [OF run map_of_key [OF ent] ent wf]
    obtain d' where "map_of g' (pre @ key) = Some (Dataset d')" and "same_array d d'" by blast
    moreover from d1 logs' have "logs dst' = Some g'" by simp
    moreover from copy_entries_names [OF run]
    have "fst ` set g' = fst ` set (require_group (logs dst)) \<union> (\<lambda>k. pre @ k) ` fst ` set g"
      by simp
    ultimately show ?thesis by blast
  qed
  have part_tables: "\<exists>g' d'. tables dst' = Some g' \<and> map_of g' (pre @ key) = Some (Dataset d')
               \<and> same_array d d'
               \<and> fst ` set g' = fst ` set (require_group (tables dst)) \<union> (\<lambda>k. pre @ k) ` fst ` set g"
    if "it" and g: "tables src = Some g" and ent: "map_of g key = Some (Dataset d)"
      and wf: "wf_dataset d" for g key d
  proof -
    from t obtain g' where
      run: "copy_entries lib g pre (map fst g) (require_group (tables dst)) = Inr g'"
      and d2: "dst2 = dst1\<lparr>tables := Some g'\<rparr>"
    proof (cases rule: copy_tables_InrE)
      case 1
      with \<open>it\<close> g show ?thesis by simp
    next
      case (2 h h')
      with g that show ?thesis by (simp add: tables1)
    qed
    from copy_entries_copied [OF run map_of_key [OF ent] ent wf]
    obtain d' where "map_of g' (pre @ key) = Some (Dataset d')" and "same_array d d'" by blast
    moreover from d2 tables' have "tables dst' = Some g'" by simp
    moreover from copy_entries_names [OF run]
    have "fst ` set g' = fst ` set (require_group (tables dst)) \<union> (\<lambda>k. pre @ k) ` fst ` set g"
      by simp
    ultimately show ?thesis by blast
  qed
  show ?thesis
  proof (intro conjI impI allI)
    fix g key d
    assume "il" and "logs src = Some g \<and> map_of g key = Some (Dataset d) \<and> wf_dataset d"
    then show "\<exists>g' d'. logs dst' = Some g' \<and> map_of g' (pre @ key) = Some (Dataset d')
               \<and> same_array d d'
               \<and> fst ` set g' = fst ` set (require_group (logs dst)) \<union> (\<lambda>k. pre @ k) ` fst ` set g"
      using part_logs by simp
  next
    fix g key d
    assume "it" and "tables src = Some g \<and> map_of g key = Some (Dataset d) \<and> wf_dataset d"
    then show "\<exists>g' d'. tables dst' = Some g' \<and> map_of g' (pre @ key) = Some (Dataset d')
               \<and> same_array d d'
               \<and> fst ` set g' = fst ` set (require_group (tables dst)) \<union> (\<lambda>k. pre @ k) ` fst ` set g"
      using part_tables by simp
  qed
qed

lemma copy_logs_returns:
  assumes "il \<longrightarrow> (\<forall>g. logs src = Some g \<longrightarrow>
             distinct (map fst g)
             \<and> (\<forall>key \<in> set (map fst g).
                   map_of (require_group (logs dst)) (pre @ key) = None
                   \<and> (\<exists>d. map_of g key = Some (Dataset d) \<and> copyable lib d)))"
  shows "\<exists>dst_l. copy_logs lib src dst il pre = Inr dst_l"
proof (cases "il \<and> logs src \<noteq> None")
  case False
  then have "\<not> il \<or> logs src = None" by simp
  from copy_logs_skipped [OF this] show ?thesis by blast
next
  case True
  then obtain g where il: "il" and g: "logs src = Some g" by auto
  with assms have "distinct (map fst g)"
    and "\<forall>key \<in> set (map fst g).
           map_of (require_group (logs dst)) (pre @ key) = None
           \<and> (\<exists>d. map_of g key = Some (Dataset d) \<and> copyable lib d)"
    by blast+
  from copy_entries_returns [OF this] obtain g'
    where "copy_entries lib g pre (map fst g) (require_group (logs dst)) = Inr g'"
    by blast
  with il g show ?thesis by (simp add: copy_logs_def)
qed

lemma copy_tables_returns:
  assumes "it \<longrightarrow> (\<forall>g. tables src = Some g \<longrightarrow>
             distinct (map fst g)
             \<and> (\<forall>key \<in> set (map fst g).
                   map_of (require_group (tables dst)) (pre @ key) = None
                   \<and> (\<exists>d. map_of g key = Some (Dataset d) \<and> copyable lib d)))"
  shows "\<exists>dst_t. copy_tables lib src dst it pre = Inr dst_t"
proof (cases "it \<and> tables src \<noteq> None")
  case False
  then have "\<not> it \<or> tables src = None" by simp
  from copy_tables_skipped [OF this] show ?thesis by blast
next
  case True
  then obtain g where it: "it" and g: "tables src = Some g" by auto
  with assms have "distinct (map fst g)"
    and "\<forall>key \<in> set (map fst g).
           map_of (require_group (tables dst)) (pre @ key) = None
           \<and> (\<exists>d. map_of g key = Some (Dataset d) \<and> copyable lib d)"
    by blast+
  from copy_entries_returns [OF this] obtain g'
    where "copy_entries lib g pre (map fst g) (require_group (tables dst)) = Inr g'"
    by blast
  with it g show ?thesis by (simp add: copy_tables_def)
qed

lemma logs_tables_return:
  assumes l: "il \<longrightarrow> (\<forall>g. logs src = Some g \<longrightarrow>
             distinct (map fst g)
             \<and> (\<forall>key \<in> set (map fst g).
                   map_of (require_group (logs dst)) (pre @ key) = None
                   \<and> (\<exists>d. map_of g key = Some (Dataset d) \<and> copyable lib d)))"
    and t: "it \<longrightarrow> (\<forall>g. tables src = Some g \<longrightarrow>
             distinct (map fst g)
             \<and> (\<forall>key \<in> set (map fst g).
                   map_of (require_group (tables dst)) (pre @ key) = None
                   \<and> (\<exists>d. map_of g key = Some (Dataset d) \<and> copyable lib d)))"
  shows "\<exists>dst_l dst_t. copy_logs lib src (copy_metadata src dst) il pre = Inr dst_l
           \<and> copy_tables lib src dst_l it pre = Inr dst_t
           \<and> rtdc_copy lib fe sfe src dst FeaturesNone il it pre = Inr dst_t"
proof -
  have "il \<longrightarrow> (\<forall>g. logs src = Some g \<longrightarrow>
             distinct (map fst g)
             \<and> (\<forall>key \<in> set (map fst g).
                   map_of (require_group (logs (copy_metadata src dst))) (pre @ key) = None
                   \<and> (\<exists>d. map_of g key = Some (Dataset d) \<and> copyable lib d)))"
    using l unfolding copy_metadata_sections .
  from copy_logs_returns [OF this] obtain dst_l
    where dl: "copy_logs lib src (copy_metadata src dst) il pre = Inr dst_l"
    by blast
  from copy_logs_sections [OF dl] have same: "tables dst_l = tables dst"
    by (simp add: copy_metadata_sections)
  have "it \<longrightarrow> (\<forall>g. tables src = Some g \<longrightarrow>
             distinct (map fst g)
             \<and> (\<forall>key \<in> set (map fst g).
                   map_of (require_group (tables dst_l)) (pre @ key) = None
                   \<and> (\<exists>d. map_of g key = Some (Dataset d) \<and> copyable lib d)))"
    using t unfolding same .
  from copy_tables_returns [OF this] obtain dst_t
    where dt: "copy_tables lib src dst_l it pre = Inr dst_t"
    by blast
  have "rtdc_copy lib fe sfe src dst FeaturesNone il it pre = Inr dst_t"
    by (simp add: rtdc_copy_def dl dt copy_events_def)
  with dl dt show ?thesis by blast
qed

text \<open>
  Claim C9. After a copy that returns, every dataset of the source's \<open>logs\<close> (when
  logs are included) and of the source's \<open>tables\<close> (when tables are included) is found
  in the same section of the destination under the name \<open>meta_prefix\<close> followed by
  its source name, with the shape, element type, elements and attributes of the
  source. The names of the destination section are those it had before and the
  prefixed names of the source section. And the copy of the logs and the tables does
  return: when no name occurs twice in a source section, every entry of the section is
  a dataset that can be stored, and the prefixed names are free in the destination,
  the logs step and the tables step return, and so does the whole copy when no
  features are selected.
\<close>

theorem rtdc_copy_logs_tables:
  "(\<forall>dst'. rtdc_copy lib fe sfe src dst feats il it pre = Inr dst' \<longrightarrow>
      (il \<longrightarrow> (\<forall>g key d. logs src = Some g \<and> map_of g key = Some (Dataset d) \<and> wf_dataset d \<longrightarrow>
            (\<exists>g' d'. logs dst' = Some g' \<and> map_of g' (pre @ key) = Some (Dataset d')
               \<and> same_array d d'
               \<and> fst ` set g' = fst ` set (require_group (logs dst)) \<union> (\<lambda>k. pre @ k) ` fst ` set g)))
       \<and> (it \<longrightarrow> (\<forall>g key d. tables src = Some g \<and> map_of g key = Some (Dataset d) \<and> wf_dataset d \<longrightarrow>
            (\<exists>g' d'. tables dst' = Some g' \<and> map_of g' (pre @ key) = Some (Dataset d')
               \<and> same_array d d'
               \<and> fst ` set g' = fst ` set (require_group (tables dst)) \<union> (\<lambda>k. pre @ k) ` fst ` set g))))
   \<and> ((il \<longrightarrow> (\<forall>g. logs src = Some g \<longrightarrow>
             distinct (map fst g)
             \<and> (\<forall>key \<in> set (map fst g).
                   map_of (require_group (logs dst)) (pre @ key) = None
                   \<and> (\<exists>d. map_of g key = Some (Dataset d) \<and> copyable lib d))))
        \<and> (it \<longrightarrow> (\<forall>g. tables src = Some g \<longrightarrow>
             distinct (map fst g)
             \<and> (\<forall>key \<in> set (map fst g).
                   map_of (require_group (tables dst)) (pre @ key) = None
                   \<and> (\<exists>d. map_of g key = Some (Dataset d) \<and> copyable lib d)))) \<longrightarrow>
       (\<exists>dst_l dst_t. copy_logs lib src (copy_metadata src dst) il pre = Inr dst_l
           \<and> copy_tables lib src dst_l it pre = Inr dst_t
           \<and> rtdc_copy lib fe sfe src dst FeaturesNone il it pre = Inr dst_t))"
proof (rule conjI)
  show "\<forall>dst'. rtdc_copy lib fe sfe src dst feats il it pre = Inr dst' \<longrightarrow>
      (il \<longrightarrow> (\<forall>g key d. logs src = Some g \<and> map_of g key = Some (Dataset d) \<and> wf_dataset d \<longrightarrow>
            (\<exists>g' d'. logs dst' = Some g' \<and> map_of g' (pre @ key) = Some (Dataset d')
               \<and> same_array d d'
               \<and> fst ` set g' = fst ` set (require_group (logs dst)) \<union> (\<lambda>k. pre @ k) ` fst ` set g)))
       \<and> (it \<longrightarrow> (\<forall>g key d. tables src = Some g \<and> map_of g key = Some (Dataset d) \<and> wf_dataset d \<longrightarrow>
            (\<exists>g' d'. tables dst' = Some g' \<and> map_of g' (pre @ key) = Some (Dataset d')
               \<and> same_array d d'
               \<and> fst ` set g' = fst ` set (require_group (tables dst)) \<union> (\<lambda>k. pre @ k) ` fst ` set g)))"
    by (intro allI impI) (erule logs_tables_copied)
next
  show "(il \<longrightarrow> (\<forall>g. logs src = Some g \<longrightarrow>
             distinct (map fst g)
             \<and> (\<forall>key \<in> set (map fst g).
                   map_of (require_group (logs dst)) (pre @ key) = None
                   \<and> (\<exists>d. map_of g key = Some (Dataset d) \<and> copyable lib d))))
        \<and> (it \<longrightarrow> (\<forall>g. tables src = Some g \<longrightarrow>
             distinct (map fst g)
             \<and> (\<forall>key \<in> set (map fst g).
                   map_of (require_group (tables dst)) (pre @ key) = None
                   \<and> (\<exists>d. map_of g key = Some (Dataset d) \<and> copyable lib d)))) \<longrightarrow>
       (\<exists>dst_l dst_t. copy_logs lib src (copy_metadata src dst) il pre = Inr dst_l
           \<and> copy_tables lib src dst_l it pre = Inr dst_t
           \<and> rtdc_copy lib fe sfe src dst FeaturesNone il it pre = Inr dst_t)"
    by (rule impI, erule conjE, rule logs_tables_return)
qed

theorem rtdc_copy_logs_tables_witness:
  "rtdc_copy small_library demo_feature_exists demo_scalar_feature_exists demo_file empty_file
     FeaturesNone True True ''exp1_'' =
     Inr \<lparr>file_attrs = [(''setup:channel width'', AttrNum (Fin 20))],
          logs = Some [(''exp1_session'',
                        Dataset (session_log\<lparr>chunks := Some [2], filters := [(32015, [5])],
                                              fletcher32 := True\<rparr>))],
          tables = Some [(''exp1_monitor'',
                          Dataset (monitor_table\<lparr>filters := [(32015, [5])],
                                                  fletcher32 := True\<rparr>))],
          events = None\<rparr>
   \<and> (\<exists>d'. map_of [(''exp1_session'',
                        Dataset (session_log\<lparr>chunks := Some [2], filters := [(32015, [5])],
                                              fletcher32 := True\<rparr>))]
               ''exp1_session'' = Some (Dataset d')
         \<and> same_array session_log d')
   \<and> (\<exists>d'. map_of [(''exp1_monitor'',
                        Dataset (monitor_table\<lparr>filters := [(32015, [5])],
                                                fletcher32 := True\<rparr>))]
               ''exp1_monitor'' = Some (Dataset d')
         \<and> same_array monitor_table d')
   \<and> content monitor_table =
       [Num (Fin 0), Num (Fin 10), Num (Fin 1), Num (Fin 12), Num (Fin 2), Num (Fin 11)]
   \<and> attrs monitor_table = [(''columns'', AttrStr ''time, pressure'')]
   \<and> chunks monitor_table = Some [2, 2]
   \<and> copyable small_library session_log \<and> copyable small_library monitor_table
   \<and> (\<exists>dst'. rtdc_copy small_library demo_feature_exists demo_scalar_feature_exists demo_file
               empty_file FeaturesNone True True ''exp1_'' = Inr dst')"
proof -
  let ?fe = demo_feature_exists and ?sfe = demo_scalar_feature_exists
  let ?log = "session_log\<lparr>chunks := Some [2], filters := [(32015, [5])], fletcher32 := True\<rparr>"
  let ?tab = "monitor_table\<lparr>filters := [(32015, [5])], fletcher32 := True\<rparr>"
  note run = demo_copy_logs_tables [of ?fe ?sfe]
  note copied = rtdc_copy_logs_tables [of small_library ?fe ?sfe demo_file empty_file
      FeaturesNone True True "''exp1_''", THEN conjunct1, rule_format, OF run]
  note returns = rtdc_copy_logs_tables [of small_library ?fe ?sfe demo_file empty_file
      FeaturesNone True True "''exp1_''", THEN conjunct2, rule_format]
  have src_logs: "logs demo_file = Some [(''session'', Dataset session_log)]"
    and src_tables: "tables demo_file = Some [(''monitor'', Dataset monitor_table)]"
    by (simp_all add: demo_file_def)
  have ent_l: "map_of [(''session'', Dataset session_log)] ''session'' =
      Some (Dataset session_log)"
    and ent_t: "map_of [(''monitor'', Dataset monitor_table)] ''monitor'' =
      Some (Dataset monitor_table)"
    by simp_all
  from copied [THEN conjunct1, rule_format,
      of "[(''session'', Dataset session_log)]" "''session''" session_log]
    src_logs ent_l wf_session_log
  obtain g' d' where g': "Some [(''exp1_session'', Dataset ?log)] = Some g'"
    and found: "map_of g' (''exp1_'' @ ''session'') = Some (Dataset d')"
    and same: "same_array session_log d'"
    by auto
  from g' found have "map_of [(''exp1_session'', Dataset ?log)] ''exp1_session'' =
      Some (Dataset d')"
    by simp
  with same have a: "\<exists>d'. map_of [(''exp1_session'', Dataset ?log)] ''exp1_session'' =
      Some (Dataset d') \<and> same_array session_log d'"
    by blast
  from copied [THEN conjunct2, rule_format,
      of "[(''monitor'', Dataset monitor_table)]" "''monitor''" monitor_table]
    src_tables ent_t wf_monitor_table
  obtain h' e' where h': "Some [(''exp1_monitor'', Dataset ?tab)] = Some h'"
    and found_t: "map_of h' (''exp1_'' @ ''monitor'') = Some (Dataset e')"
    and same_t: "same_array monitor_table e'"
    by auto
  from h' found_t have "map_of [(''exp1_monitor'', Dataset ?tab)] ''exp1_monitor'' =
      Some (Dataset e')"
    by simp
  with same_t have b: "\<exists>d'. map_of [(''exp1_monitor'', Dataset ?tab)] ''exp1_monitor'' =
      Some (Dataset d') \<and> same_array monitor_table d'"
    by blast
  have able_l: "copyable small_library session_log"
    by (simp add: copyable_def is_properly_compressed_def get_filter_by_id_def plan_chunks_def
        create_accepts_def small_library_def session_log_def)
  have able_t: "copyable small_library monitor_table"
    by (simp add: copyable_def is_properly_compressed_def get_filter_by_id_def plan_chunks_def
        create_accepts_def monitor_table_def)
  have cond_l: "True \<longrightarrow> (\<forall>g. logs demo_file = Some g \<longrightarrow>
             distinct (map fst g)
             \<and> (\<forall>key \<in> set (map fst g).
                   map_of (require_group (logs empty_file)) (''exp1_'' @ key) = None
                   \<and> (\<exists>d. map_of g key = Some (Dataset d) \<and> copyable small_library d)))"
    using able_l by (simp add: src_logs empty_file_def require_group_def)
  have cond_t: "True \<longrightarrow> (\<forall>g. tables demo_file = Some g \<longrightarrow>
             distinct (map fst g)
             \<and> (\<forall>key \<in> set (map fst g).
                   map_of (require_group (tables empty_file)) (''exp1_'' @ key) = None
                   \<and> (\<exists>d. map_of g key = Some (Dataset d) \<and> copyable small_library d)))"
    using able_t by (simp add: src_tables empty_file_def require_group_def)
  from returns [OF conjI [OF cond_l cond_t]]
  have c: "\<exists>dst'. rtdc_copy small_library ?fe ?sfe demo_file empty_file FeaturesNone True True
      ''exp1_'' = Inr dst'"
    by blast
  have vals: "content monitor_table =
       [Num (Fin 0), Num (Fin 10), Num (Fin 1), Num (Fin 12), Num (Fin 2), Num (Fin 11)]"
    "attrs monitor_table = [(''columns'', AttrStr ''time, pressure'')]"
    "chunks monitor_table = Some [2, 2]"
    by (simp_all add: monitor_table_def)
  show ?thesis
    by (intro conjI) (rule run a b vals able_l able_t c)+
qed

subsection \<open>Failures and missing sections\<close>

lemma copy_features_none_selected:
  "\<forall>feat \<in> set feats. \<not> fe feat so \<Longrightarrow>
   copy_features lib fe sfe so src_loc feats dst_loc = Inr dst_loc"
  by (induction feats) simp_all

lemma copy_events_skipped:
  "copy_events lib fe sfe src dst FeaturesNone = Inr dst"
  by (simp add: copy_events_def)

lemma copy_events_no_events:
  "feats \<noteq> FeaturesNone \<Longrightarrow> events src = None \<Longrightarrow>
   copy_events lib fe sfe src dst feats =
     Inl (KeyError ''events'', dst\<lparr>events := Some (require_group (events dst))\<rparr>)"
  by (simp add: copy_events_def)

lemma copy_events_failed:
  "feats \<noteq> FeaturesNone \<Longrightarrow> events src = Some g \<Longrightarrow>
   copy_features lib fe sfe (feats = FeaturesScalar) g (map fst g) (require_group (events dst))
     = Inl (e, g') \<Longrightarrow>
   copy_events lib fe sfe src dst feats = Inl (e, dst\<lparr>events := Some g'\<rparr>)"
  by (simp add: copy_events_def)

lemma copy_logs_failed:
  "il \<Longrightarrow> logs src = Some g \<Longrightarrow>
   copy_entries lib g pre (map fst g) (require_group (logs dst)) = Inl (e, g') \<Longrightarrow>
   copy_logs lib src dst il pre = Inl (e, dst\<lparr>logs := Some g'\<rparr>)"
  by (simp add: copy_logs_def)

lemma copy_tables_failed:
  "it \<Longrightarrow> tables src = Some g \<Longrightarrow>
   copy_entries lib g pre (map fst g) (require_group (tables dst)) = Inl (e, g') \<Longrightarrow>
   copy_tables lib src dst it pre = Inl (e, dst\<lparr>tables := Some g'\<rparr>)"
  by (simp add: copy_tables_def)

lemma rtdc_copy_logs_failed:
  "copy_logs lib src (copy_metadata src dst) il pre = Inl err \<Longrightarrow>
   rtdc_copy lib fe sfe src dst feats il it pre = Inl err"
  by (simp add: rtdc_copy_def)

lemma rtdc_copy_tables_failed:
  "copy_logs lib src (copy_metadata src dst) il pre = Inr dst_l \<Longrightarrow>
   copy_tables lib src dst_l it pre = Inl err \<Longrightarrow>
   rtdc_copy lib fe sfe src dst feats il it pre = Inl err"
  by (simp add: rtdc_copy_def)

lemma rtdc_copy_events:
  "copy_logs lib src (copy_metadata src dst) il pre = Inr dst_l \<Longrightarrow>
   copy_tables lib src dst_l it pre = Inr dst_t \<Longrightarrow>
   rtdc_copy lib fe sfe src dst feats il it pre = copy_events lib fe sfe src dst_t feats"
  by (simp add: rtdc_copy_def)

lemma copy_entries_abort:
  "map_of src_loc key = Some (Group members) \<Longrightarrow>
   copy_entries lib src_loc pre ks dst_loc = Inr sofar \<Longrightarrow>
   copy_entries lib src_loc pre (ks @ key # ks') dst_loc = Inl (ValueError (not_a_dataset key), sofar)"
  by (simp add: copy_entries_append h5ds_copy_group)

lemma copy_features_abort:
  "map_of src_loc key = Some (Group members) \<Longrightarrow> fe key so \<Longrightarrow>
   copy_features lib fe sfe so src_loc ks dst_loc = Inr sofar \<Longrightarrow>
   copy_features lib fe sfe so src_loc (ks @ key # ks') dst_loc =
     Inl (ValueError (not_a_dataset key), sofar)"
  by (simp add: copy_features_append h5ds_copy_group)

subsection \<open>Runs on the example files\<close>

lemma is_properly_compressed_zstd7: "is_properly_compressed zstd7 = Inr True"
  by (simp add: zstd7_def is_properly_compressed_def get_filter_by_id_def zstd_filter_id_def)

lemma is_properly_compressed_image_ds: "is_properly_compressed image_ds = Inr True"
  by (simp add: image_ds_def is_properly_compressed_def get_filter_by_id_def zstd_filter_id_def)

lemma complement_stats_zstd7: "complement_stats (stat_ufuncs small_library) zstd7 = Inr zstd7_stats"
  by (simp add: stat_ufuncs_def zstd7_def zstd7_stats_def apply_ufunc_def nanmin_def nanmax_def
      nanmean_def not_nan_def fv_min_def fv_max_def small_library_def)

lemma copy_deform:
  assumes "map_of g ''deform'' = Some (Dataset zstd7)"
  shows "copy_features small_library demo_feature_exists demo_scalar_feature_exists so g [''deform''] [] =
           Inr [(''deform'', Dataset zstd7_stats)]"
proof -
  have "h5ds_copy small_library g ''deform'' [] None True = Inr ([(''deform'', Dataset zstd7)], zstd7)"
    using h5ds_copy_verbatim [OF assms, of "[]" None True]
    by (simp add: name_or_def is_properly_compressed_zstd7)
  then show ?thesis
    by (simp add: demo_feature_exists_def demo_scalar_feature_exists_def complement_stats_zstd7)
qed

lemma copy_image:
  assumes "map_of g ''image'' = Some (Dataset image_ds)"
  shows "copy_features small_library demo_feature_exists demo_scalar_feature_exists False g [''image'']
           [(''deform'', Dataset zstd7_stats)] =
           Inr [(''deform'', Dataset zstd7_stats), (''image'', Dataset image_ds)]"
proof -
  have "h5ds_copy small_library g ''image'' [(''deform'', Dataset zstd7_stats)] None True =
      Inr ([(''deform'', Dataset zstd7_stats)] @ [(''image'', Dataset image_ds)], image_ds)"
    using h5ds_copy_verbatim [OF assms, of "[(''deform'', Dataset zstd7_stats)]" None True]
    by (simp add: name_or_def is_properly_compressed_image_ds)
  then show ?thesis
    by (simp add: demo_feature_exists_def demo_scalar_feature_exists_def)
qed

lemma feature_file_sections:
  "copy_logs small_library feature_file (copy_metadata feature_file empty_file) il pre = Inr empty_file"
  "copy_tables small_library feature_file empty_file it pre = Inr empty_file"
  by (simp_all add: copy_logs_skipped copy_tables_skipped feature_file_def copy_metadata_def
      empty_file_def)

lemma broken_file_sections:
  "copy_logs small_library broken_file (copy_metadata broken_file empty_file) il pre = Inr empty_file"
  "copy_tables small_library broken_file empty_file it pre = Inr empty_file"
  by (simp_all add: copy_logs_skipped copy_tables_skipped broken_file_def copy_metadata_def
      empty_file_def)

lemma feature_file_scalar:
  "rtdc_copy small_library demo_feature_exists demo_scalar_feature_exists feature_file empty_file
     FeaturesScalar il it pre = Inr (empty_file\<lparr>events := Some [(''deform'', Dataset zstd7_stats)]\<rparr>)"
proof -
  let ?g = "[(''deform'', Dataset zstd7), (''image'', Dataset image_ds), (''notes'', Group [])]"
  have a: "copy_features small_library demo_feature_exists demo_scalar_feature_exists True ?g [''deform''] [] =
      Inr [(''deform'', Dataset zstd7_stats)]"
    by (rule copy_deform) simp
  have b: "copy_features small_library demo_feature_exists demo_scalar_feature_exists True ?g
      [''image'', ''notes''] [(''deform'', Dataset zstd7_stats)] =
      Inr [(''deform'', Dataset zstd7_stats)]"
    by (simp add: demo_feature_exists_def)
  have "copy_features small_library demo_feature_exists demo_scalar_feature_exists True ?g
          ([''deform''] @ [''image'', ''notes'']) [] = Inr [(''deform'', Dataset zstd7_stats)]"
    unfolding copy_features_append a by (simp only: sum.case b)
  then have run: "copy_features small_library demo_feature_exists demo_scalar_feature_exists True ?g
          [''deform'', ''image'', ''notes''] [] = Inr [(''deform'', Dataset zstd7_stats)]"
    by (simp only: append.simps)
  have "rtdc_copy small_library demo_feature_exists demo_scalar_feature_exists feature_file empty_file
     FeaturesScalar il it pre =
     copy_events small_library demo_feature_exists demo_scalar_feature_exists feature_file empty_file
       FeaturesScalar"
    by (rule rtdc_copy_events [OF feature_file_sections])
  also have "\<dots> = Inr (empty_file\<lparr>events := Some [(''deform'', Dataset zstd7_stats)]\<rparr>)"
    by (simp del: copy_features.simps
        add: copy_events_def feature_file_def require_group_def empty_file_def run)
  finally show ?thesis .
qed

lemma feature_file_all:
  "rtdc_copy small_library demo_feature_exists demo_scalar_feature_exists feature_file empty_file
     FeaturesAll il it pre =
     Inr (empty_file\<lparr>events := Some [(''deform'', Dataset zstd7_stats),
                                        (''image'', Dataset image_ds)]\<rparr>)"
proof -
  let ?g = "[(''deform'', Dataset zstd7), (''image'', Dataset image_ds), (''notes'', Group [])]"
  have a: "copy_features small_library demo_feature_exists demo_scalar_feature_exists False ?g [''deform''] [] =
      Inr [(''deform'', Dataset zstd7_stats)]"
    by (rule copy_deform) simp
  have b: "copy_features small_library demo_feature_exists demo_scalar_feature_exists False ?g [''image'']
      [(''deform'', Dataset zstd7_stats)] =
      Inr [(''deform'', Dataset zstd7_stats), (''image'', Dataset image_ds)]"
    by (rule copy_image) simp
  have c: "copy_features small_library demo_feature_exists demo_scalar_feature_exists False ?g [''notes'']
      [(''deform'', Dataset zstd7_stats), (''image'', Dataset image_ds)] =
      Inr [(''deform'', Dataset zstd7_stats), (''image'', Dataset image_ds)]"
    by (simp add: demo_feature_exists_def)
  have "copy_features small_library demo_feature_exists demo_scalar_feature_exists False ?g
          ([''deform''] @ [''image''] @ [''notes'']) [] =
          Inr [(''deform'', Dataset zstd7_stats), (''image'', Dataset image_ds)]"
    unfolding copy_features_append a by (simp only: sum.case b c)
  then have run: "copy_features small_library demo_feature_exists demo_scalar_feature_exists False ?g
          [''deform'', ''image'', ''notes''] [] =
          Inr [(''deform'', Dataset zstd7_stats), (''image'', Dataset image_ds)]"
    by (simp only: append.simps)
  have "rtdc_copy small_library demo_feature_exists demo_scalar_feature_exists feature_file empty_file
     FeaturesAll il it pre =
     copy_events small_library demo_feature_exists demo_scalar_feature_exists feature_file empty_file
       FeaturesAll"
    by (rule rtdc_copy_events [OF feature_file_sections])
  also have "\<dots> = Inr (empty_file\<lparr>events := Some [(''deform'', Dataset zstd7_stats),
                                        (''image'', Dataset image_ds)]\<rparr>)"
    by (simp del: copy_features.simps
        add: copy_events_def feature_file_def require_group_def empty_file_def run)
  finally show ?thesis .
qed

lemma broken_file_deform:
  "copy_features small_library demo_feature_exists demo_scalar_feature_exists False
     [(''deform'', Dataset zstd7), (''image'', Group []), (''notes'', Dataset zstd7)]
     [''deform''] [] = Inr [(''deform'', Dataset zstd7_stats)]"
  by (rule copy_deform) simp

subsection \<open>A group where a dataset is expected\<close>

text \<open>
  Claim C3. \<open>h5ds_copy\<close> on a name that holds a group fails with the \<open>ValueError\<close>
  that says the object is not a dataset, whatever the other arguments. In
  \<open>rtdc_copy\<close> the error ends the copy at that entry: when the entries before it in
  its section were copied, the result is this error together with the destination as
  it is then, which holds those entries and nothing of what comes later (the rest of
  the section and the sections after it are as they were).
\<close>

theorem not_a_dataset_aborts:
  "(map_of src_loc name = Some (Group members) \<longrightarrow>
      h5ds_copy lib src_loc name dst_loc dst_name ensure = Inl (ValueError (not_a_dataset name)))
   \<and> (il \<and> logs src = Some g \<and> map fst g = ks @ key # ks'
        \<and> map_of g key = Some (Group members)
        \<and> copy_entries lib g pre ks (require_group (logs dst)) = Inr sofar \<longrightarrow>
      rtdc_copy lib fe sfe src dst feats il it pre =
        Inl (ValueError (not_a_dataset key), (copy_metadata src dst)\<lparr>logs := Some sofar\<rparr>))
   \<and> (copy_logs lib src (copy_metadata src dst) il pre = Inr dst_l
        \<and> it \<and> tables src = Some g \<and> map fst g = ks @ key # ks'
        \<and> map_of g key = Some (Group members)
        \<and> copy_entries lib g pre ks (require_group (tables dst_l)) = Inr sofar \<longrightarrow>
      rtdc_copy lib fe sfe src dst feats il it pre =
        Inl (ValueError (not_a_dataset key), dst_l\<lparr>tables := Some sofar\<rparr>))
   \<and> (copy_logs lib src (copy_metadata src dst) il pre = Inr dst_l
        \<and> copy_tables lib src dst_l it pre = Inr dst_t
        \<and> feats \<noteq> FeaturesNone \<and> events src = Some g \<and> map fst g = ks @ key # ks'
        \<and> map_of g key = Some (Group members) \<and> fe key (feats = FeaturesScalar)
        \<and> copy_features lib fe sfe (feats = FeaturesScalar) g ks (require_group (events dst_t))
            = Inr sofar \<longrightarrow>
      rtdc_copy lib fe sfe src dst feats il it pre =
        Inl (ValueError (not_a_dataset key), dst_t\<lparr>events := Some sofar\<rparr>))"
proof (intro conjI impI)
  assume "map_of src_loc name = Some (Group members)"
  then show "h5ds_copy lib src_loc name dst_loc dst_name ensure = Inl (ValueError (not_a_dataset name))"
    by (rule h5ds_copy_group)
next
  assume a: "il \<and> logs src = Some g \<and> map fst g = ks @ key # ks'
        \<and> map_of g key = Some (Group members)
        \<and> copy_entries lib g pre ks (require_group (logs dst)) = Inr sofar"
  then have "copy_entries lib g pre (map fst g) (require_group (logs (copy_metadata src dst)))
      = Inl (ValueError (not_a_dataset key), sofar)"
    by (simp add: copy_entries_abort copy_metadata_sections)
  with a have "copy_logs lib src (copy_metadata src dst) il pre =
      Inl (ValueError (not_a_dataset key), (copy_metadata src dst)\<lparr>logs := Some sofar\<rparr>)"
    by (simp add: copy_logs_failed)
  then show "rtdc_copy lib fe sfe src dst feats il it pre =
        Inl (ValueError (not_a_dataset key), (copy_metadata src dst)\<lparr>logs := Some sofar\<rparr>)"
    by (rule rtdc_copy_logs_failed)
next
  assume a: "copy_logs lib src (copy_metadata src dst) il pre = Inr dst_l
        \<and> it \<and> tables src = Some g \<and> map fst g = ks @ key # ks'
        \<and> map_of g key = Some (Group members)
        \<and> copy_entries lib g pre ks (require_group (tables dst_l)) = Inr sofar"
  then have "copy_entries lib g pre (map fst g) (require_group (tables dst_l))
      = Inl (ValueError (not_a_dataset key), sofar)"
    by (simp add: copy_entries_abort)
  with a have "copy_tables lib src dst_l it pre =
      Inl (ValueError (not_a_dataset key), dst_l\<lparr>tables := Some sofar\<rparr>)"
    by (simp add: copy_tables_failed)
  with a show "rtdc_copy lib fe sfe src dst feats il it pre =
        Inl (ValueError (not_a_dataset key), dst_l\<lparr>tables := Some sofar\<rparr>)"
    by (simp add: rtdc_copy_tables_failed)
next
  assume a: "copy_logs lib src (copy_metadata src dst) il pre = Inr dst_l
        \<and> copy_tables lib src dst_l it pre = Inr dst_t
        \<and> feats \<noteq> FeaturesNone \<and> events src = Some g \<and> map fst g = ks @ key # ks'
        \<and> map_of g key = Some (Group members) \<and> fe key (feats = FeaturesScalar)
        \<and> copy_features lib fe sfe (feats = FeaturesScalar) g ks (require_group (events dst_t))
            = Inr sofar"
  then have "copy_features lib fe sfe (feats = FeaturesScalar) g (map fst g)
      (require_group (events dst_t)) = Inl (ValueError (not_a_dataset key), sofar)"
    by (simp add: copy_features_abort)
  with a have "copy_events lib fe sfe src dst_t feats =
      Inl (ValueError (not_a_dataset key), dst_t\<lparr>events := Some sofar\<rparr>)"
    by (simp add: copy_events_failed)
  with a show "rtdc_copy lib fe sfe src dst feats il it pre =
        Inl (ValueError (not_a_dataset key), dst_t\<lparr>events := Some sofar\<rparr>)"
    by (simp add: rtdc_copy_events)
qed

theorem not_a_dataset_aborts_witness:
  "h5ds_copy small_library [(''image'', Group [])] ''image'' [] None True =
     Inl (ValueError (not_a_dataset ''image''))
   \<and> rtdc_copy small_library demo_feature_exists demo_scalar_feature_exists broken_file empty_file FeaturesAll
       True True [] =
     Inl (ValueError (not_a_dataset ''image''),
          empty_file\<lparr>events := Some [(''deform'', Dataset zstd7_stats)]\<rparr>)"
proof -
  let ?g = "[(''deform'', Dataset zstd7), (''image'', Group []), (''notes'', Dataset zstd7)]"
  note claim = not_a_dataset_aborts [where lib = small_library and src_loc = "[(''image'', Group [])]"
      and name = "''image''" and members = "[]" and dst_loc = "[]" and dst_name = None
      and ensure = True and src = broken_file and dst = empty_file and g = ?g
      and ks = "[''deform'']" and key = "''image''" and ks' = "[''notes'']"
      and feats = FeaturesAll and fe = demo_feature_exists and sfe = demo_scalar_feature_exists
      and il = True and it = True and pre = "[]" and dst_l = empty_file and dst_t = empty_file
      and sofar = "[(''deform'', Dataset zstd7_stats)]"]
  have one: "h5ds_copy small_library [(''image'', Group [])] ''image'' [] None True =
     Inl (ValueError (not_a_dataset ''image''))"
    using claim [THEN conjunct1] by simp
  have "events broken_file = Some ?g" and "demo_feature_exists ''image'' (FeaturesAll = FeaturesScalar)"
    and "require_group (events empty_file) = []"
    by (simp_all add: broken_file_def demo_feature_exists_def require_group_def empty_file_def)
  with claim [THEN conjunct2, THEN conjunct2, THEN conjunct2] broken_file_sections
    broken_file_deform
  have two: "rtdc_copy small_library demo_feature_exists demo_scalar_feature_exists broken_file empty_file
       FeaturesAll True True [] =
     Inl (ValueError (not_a_dataset ''image''),
          empty_file\<lparr>events := Some [(''deform'', Dataset zstd7_stats)]\<rparr>)"
    by (simp del: copy_features.simps)
  from one two show ?thesis by (rule conjI)
qed

subsection \<open>Missing sections\<close>

text \<open>
  Claim C10. With a source that has no \<open>events\<close> section and a feature mode other
  than \<open>none\<close> the copy fails: once logs and tables are done it creates the \<open>events\<close>
  group of the destination and then raises \<open>KeyError\<close> for the missing source group.
  A missing \<open>logs\<close> or \<open>tables\<close> section is skipped without error, so a source with
  none of the three sections is copied (its attributes) in the mode \<open>none\<close> and fails
  with the \<open>KeyError\<close> in the other modes.
\<close>

theorem rtdc_copy_missing_sections:
  "(events src = None \<and> feats \<noteq> FeaturesNone \<longrightarrow>
      (\<exists>err. rtdc_copy lib fe sfe src dst feats il it pre = Inl err))
   \<and> (events src = None \<and> feats \<noteq> FeaturesNone
        \<and> copy_logs lib src (copy_metadata src dst) il pre = Inr dst_l
        \<and> copy_tables lib src dst_l it pre = Inr dst_t \<longrightarrow>
      rtdc_copy lib fe sfe src dst feats il it pre =
        Inl (KeyError ''events'', dst_t\<lparr>events := Some (require_group (events dst_t))\<rparr>))
   \<and> (logs src = None \<longrightarrow> copy_logs lib src dst il pre = Inr dst)
   \<and> (tables src = None \<longrightarrow> copy_tables lib src dst it pre = Inr dst)
   \<and> (logs src = None \<and> tables src = None \<and> events src = None \<and> feats \<noteq> FeaturesNone \<longrightarrow>
      rtdc_copy lib fe sfe src dst feats il it pre =
        Inl (KeyError ''events'',
             (copy_metadata src dst)\<lparr>events := Some (require_group (events dst))\<rparr>))
   \<and> (logs src = None \<and> tables src = None \<longrightarrow>
      rtdc_copy lib fe sfe src dst FeaturesNone il it pre = Inr (copy_metadata src dst))"
proof (intro conjI impI)
  assume a: "events src = None \<and> feats \<noteq> FeaturesNone"
  show "\<exists>err. rtdc_copy lib fe sfe src dst feats il it pre = Inl err"
  proof (cases "copy_logs lib src (copy_metadata src dst) il pre")
    case (Inl err)
    then show ?thesis by (simp add: rtdc_copy_logs_failed)
  next
    case l: (Inr d1)
    show ?thesis
    proof (cases "copy_tables lib src d1 it pre")
      case (Inl err)
      with l show ?thesis by (simp add: rtdc_copy_tables_failed)
    next
      case (Inr d2)
      with l a show ?thesis by (simp add: rtdc_copy_events copy_events_no_events)
    qed
  qed
next
  assume "events src = None \<and> feats \<noteq> FeaturesNone
        \<and> copy_logs lib src (copy_metadata src dst) il pre = Inr dst_l
        \<and> copy_tables lib src dst_l it pre = Inr dst_t"
  then show "rtdc_copy lib fe sfe src dst feats il it pre =
        Inl (KeyError ''events'', dst_t\<lparr>events := Some (require_group (events dst_t))\<rparr>)"
    by (simp add: rtdc_copy_events copy_events_no_events)
next
  assume "logs src = None"
  then show "copy_logs lib src dst il pre = Inr dst" by (simp add: copy_logs_skipped)
next
  assume "tables src = None"
  then show "copy_tables lib src dst it pre = Inr dst" by (simp add: copy_tables_skipped)
next
  assume a: "logs src = None \<and> tables src = None \<and> events src = None \<and> feats \<noteq> FeaturesNone"
  then have "copy_logs lib src (copy_metadata src dst) il pre = Inr (copy_metadata src dst)"
    and "copy_tables lib src (copy_metadata src dst) it pre = Inr (copy_metadata src dst)"
    by (simp_all add: copy_logs_skipped copy_tables_skipped)
  with a show "rtdc_copy lib fe sfe src dst feats il it pre =
        Inl (KeyError ''events'',
             (copy_metadata src dst)\<lparr>events := Some (require_group (events dst))\<rparr>)"
    by (simp add: rtdc_copy_events copy_events_no_events copy_metadata_sections)
next
  assume a: "logs src = None \<and> tables src = None"
  then have "copy_logs lib src (copy_metadata src dst) il pre = Inr (copy_metadata src dst)"
    and "copy_tables lib src (copy_metadata src dst) it pre = Inr (copy_metadata src dst)"
    by (simp_all add: copy_logs_skipped copy_tables_skipped)
  then show "rtdc_copy lib fe sfe src dst FeaturesNone il it pre = Inr (copy_metadata src dst)"
    by (simp add: rtdc_copy_events copy_events_skipped)
qed

theorem rtdc_copy_missing_sections_witness:
  "rtdc_copy small_library demo_feature_exists demo_scalar_feature_exists empty_file empty_file FeaturesAll
     True True [] = Inl (KeyError ''events'', empty_file\<lparr>events := Some []\<rparr>)
   \<and> rtdc_copy small_library demo_feature_exists demo_scalar_feature_exists empty_file empty_file FeaturesNone
     True True [] = Inr empty_file
   \<and> copy_logs small_library empty_file empty_file True [] = Inr empty_file
   \<and> copy_tables small_library empty_file empty_file True [] = Inr empty_file"
proof -
  note claim = rtdc_copy_missing_sections [where lib = small_library and src = empty_file and dst = empty_file
      and feats = FeaturesAll and fe = demo_feature_exists and sfe = demo_scalar_feature_exists
      and il = True and it = True and pre = "[]" and dst_l = empty_file and dst_t = empty_file]
  have secs: "logs empty_file = None" "tables empty_file = None" "events empty_file = None"
    and meta: "copy_metadata empty_file empty_file = empty_file"
    and grp: "require_group None = []"
    by (simp_all add: empty_file_def copy_metadata_def require_group_def)
  from claim secs meta grp show ?thesis by simp
qed

subsection \<open>The selection of features\<close>

lemma complement_stats_content:
  "complement_stats us d = Inr d' \<Longrightarrow> content d' = content d"
proof -
  assume "complement_stats us d = Inr d'"
  then have "d' = d\<lparr>attrs := attrs d'\<rparr>" by (rule complement_stats_fields)
  then have "content d' = content (d\<lparr>attrs := attrs d'\<rparr>)" by simp
  then show ?thesis by simp
qed

text \<open>
  Claim C7. After a copy that returns: in the mode \<open>none\<close> the \<open>events\<close> section of the
  destination is what it was before; in the modes \<open>all\<close> and \<open>scalar\<close> the names of
  the destination's \<open>events\<close> are those it had and the names of the source's \<open>events\<close>
  for which \<open>feature_exists\<close> holds (with \<open>scalar_only\<close> in the mode \<open>scalar\<close>), and
  each such dataset is there with the elements of the source. An entry for which the
  predicate does not hold is passed over: the loop goes on as if it were not there,
  and a list of such entries is run through without error and without a copy.
\<close>

theorem rtdc_copy_feature_selection:
  assumes ok: "rtdc_copy lib fe sfe src dst feats il it pre = Inr dst'"
  shows "(feats = FeaturesNone \<longrightarrow> events dst' = events dst)
       \<and> (feats \<noteq> FeaturesNone \<longrightarrow>
            (\<exists>g g'. events src = Some g \<and> events dst' = Some g'
               \<and> fst ` set g' = fst ` set (require_group (events dst))
                    \<union> {feat \<in> fst ` set g. fe feat (feats = FeaturesScalar)}
               \<and> (\<forall>feat d. map_of g feat = Some (Dataset d) \<and> wf_dataset d
                      \<and> fe feat (feats = FeaturesScalar) \<longrightarrow>
                    (\<exists>d'. map_of g' feat = Some (Dataset d') \<and> content d' = content d))))
       \<and> (\<not> fe name so \<longrightarrow>
            copy_features lib fe sfe so src_loc (name # names) dst_loc =
              copy_features lib fe sfe so src_loc names dst_loc)
       \<and> ((\<forall>name \<in> set names. \<not> fe name so) \<longrightarrow>
            copy_features lib fe sfe so src_loc names dst_loc = Inr dst_loc)"
proof -
  from ok obtain dst_l dst_t
    where l: "copy_logs lib src (copy_metadata src dst) il pre = Inr dst_l"
      and t: "copy_tables lib src dst_l it pre = Inr dst_t"
      and e: "copy_events lib fe sfe src dst_t feats = Inr dst'"
    by (rule rtdc_copy_InrE)
  have before: "events dst_t = events dst"
    using copy_logs_sections [OF l] copy_tables_sections [OF t]
    by (simp add: copy_metadata_sections)
  have none: "events dst' = events dst" if "feats = FeaturesNone"
    using e that before by (simp add: copy_events_skipped)
  have some: "\<exists>g g'. events src = Some g \<and> events dst' = Some g'
               \<and> fst ` set g' = fst ` set (require_group (events dst))
                    \<union> {feat \<in> fst ` set g. fe feat (feats = FeaturesScalar)}
               \<and> (\<forall>feat d. map_of g feat = Some (Dataset d) \<and> wf_dataset d
                      \<and> fe feat (feats = FeaturesScalar) \<longrightarrow>
                    (\<exists>d'. map_of g' feat = Some (Dataset d') \<and> content d' = content d))"
    if mode: "feats \<noteq> FeaturesNone"
  proof -
    from e obtain g g' where g: "events src = Some g"
      and run: "copy_features lib fe sfe (feats = FeaturesScalar) g (map fst g)
                  (require_group (events dst)) = Inr g'"
      and res: "dst' = dst_t\<lparr>events := Some g'\<rparr>"
    proof (cases rule: copy_events_InrE)
      case 1
      with mode show ?thesis by simp
    next
      case (2 h h')
      with that before show ?thesis by simp
    qed
    have names: "fst ` set g' = fst ` set (require_group (events dst))
                    \<union> {feat \<in> fst ` set g. fe feat (feats = FeaturesScalar)}"
      using copy_features_names [OF run] by simp
    have each: "\<exists>d'. map_of g' feat = Some (Dataset d') \<and> content d' = content d"
      if ent: "map_of g feat = Some (Dataset d)" and wf: "wf_dataset d"
        and sel: "fe feat (feats = FeaturesScalar)" for feat d
    proof -
      from copy_features_copied [OF run map_of_key [OF ent] sel ent wf]
      obtain dm d' where same: "same_array d dm"
        and st: "if sfe feat then complement_stats (stat_ufuncs lib) dm = Inr d' else d' = dm"
        and found: "map_of g' feat = Some (Dataset d')" by blast
      from st have "content d' = content dm"
        by (cases "sfe feat") (simp_all add: complement_stats_content)
      with same have "content d' = content d" by (simp add: same_array_def)
      with found show ?thesis by blast
    qed
    from res have "events dst' = Some g'" by simp
    with g names each show ?thesis by blast
  qed
  have skip: "copy_features lib fe sfe so src_loc (name # names) dst_loc =
              copy_features lib fe sfe so src_loc names dst_loc" if "\<not> fe name so"
    using that by simp
  have pass: "copy_features lib fe sfe so src_loc names dst_loc = Inr dst_loc"
    if "\<forall>name \<in> set names. \<not> fe name so"
    using that by (rule copy_features_none_selected)
  show ?thesis
  proof (intro conjI impI)
    assume "feats = FeaturesNone"
    then show "events dst' = events dst" by (rule none)
  next
    assume "feats \<noteq> FeaturesNone"
    then show "\<exists>g g'. events src = Some g \<and> events dst' = Some g'
               \<and> fst ` set g' = fst ` set (require_group (events dst))
                    \<union> {feat \<in> fst ` set g. fe feat (feats = FeaturesScalar)}
               \<and> (\<forall>feat d. map_of g feat = Some (Dataset d) \<and> wf_dataset d
                      \<and> fe feat (feats = FeaturesScalar) \<longrightarrow>
                    (\<exists>d'. map_of g' feat = Some (Dataset d') \<and> content d' = content d))"
      by (rule some)
  next
    assume "\<not> fe name so"
    then show "copy_features lib fe sfe so src_loc (name # names) dst_loc =
              copy_features lib fe sfe so src_loc names dst_loc" by (rule skip)
  next
    assume "\<forall>name \<in> set names. \<not> fe name so"
    then show "copy_features lib fe sfe so src_loc names dst_loc = Inr dst_loc" by (rule pass)
  qed
qed

theorem rtdc_copy_feature_selection_witness:
  "rtdc_copy small_library demo_feature_exists demo_scalar_feature_exists feature_file empty_file
     FeaturesScalar True True [] =
     Inr (empty_file\<lparr>events := Some [(''deform'', Dataset zstd7_stats)]\<rparr>)
   \<and> fst ` set [(''deform'', Dataset zstd7_stats)] =
       {feat \<in> {''deform'', ''image'', ''notes''}. demo_feature_exists feat True}
   \<and> rtdc_copy small_library demo_feature_exists demo_scalar_feature_exists feature_file empty_file
     FeaturesAll True True [] =
     Inr (empty_file\<lparr>events := Some [(''deform'', Dataset zstd7_stats),
                                        (''image'', Dataset image_ds)]\<rparr>)
   \<and> events empty_file = None"
proof -
  note scalar = feature_file_scalar [of True True "[]"]
  note every = feature_file_all [of True True "[]"]
  have src: "events feature_file =
      Some [(''deform'', Dataset zstd7), (''image'', Dataset image_ds), (''notes'', Group [])]"
    by (simp add: feature_file_def)
  have dst: "require_group (events empty_file) = []" and none: "events empty_file = None"
    by (simp_all add: empty_file_def require_group_def)
  have "\<exists>g g'. events feature_file = Some g
      \<and> events (empty_file\<lparr>events := Some [(''deform'', Dataset zstd7_stats)]\<rparr>) = Some g'
      \<and> fst ` set g' = fst ` set (require_group (events empty_file))
           \<union> {feat \<in> fst ` set g. demo_feature_exists feat (FeaturesScalar = FeaturesScalar)}
      \<and> (\<forall>feat d. map_of g feat = Some (Dataset d) \<and> wf_dataset d
             \<and> demo_feature_exists feat (FeaturesScalar = FeaturesScalar) \<longrightarrow>
           (\<exists>d'. map_of g' feat = Some (Dataset d') \<and> content d' = content d))"
    using rtdc_copy_feature_selection [OF scalar, THEN conjunct2, THEN conjunct1] by simp
  then obtain g g' where g: "events feature_file = Some g"
    and g': "events (empty_file\<lparr>events := Some [(''deform'', Dataset zstd7_stats)]\<rparr>) = Some g'"
    and names: "fst ` set g' = fst ` set (require_group (events empty_file))
           \<union> {feat \<in> fst ` set g. demo_feature_exists feat (FeaturesScalar = FeaturesScalar)}"
    by (elim exE conjE)
  from g src have "g = [(''deform'', Dataset zstd7), (''image'', Dataset image_ds),
      (''notes'', Group [])]" by simp
  moreover from g' have "g' = [(''deform'', Dataset zstd7_stats)]" by simp
  ultimately have "fst ` set [(''deform'', Dataset zstd7_stats)] =
       {feat \<in> {''deform'', ''image'', ''notes''}. demo_feature_exists feat True}"
    using names dst by simp
  with scalar every none show ?thesis by simp
qed

subsection \<open>Statistics of scalar features\<close>











end
